theory Spec2Isabelle
  imports Complex_Main "HOL-Library.AList" "HOL-Library.Sublist"
begin


section \<open>Floating-point values and Python errors\<close>

text \<open>
  The repository computes with numpy \<open>float64\<close> values. They are modelled as exact reals
  extended by the three special values that the code handles or produces on purpose:
  \<open>NaN\<close> (the marker for "no surge", and the value pandas puts into unmatched cells of a
  left merge), and the two infinities that a numpy division by zero returns. Rounding and
  overflow of finite values are not modelled.
\<close>

datatype npfloat = Fin real | PInf | NInf | NaN

datatype py_error = ValueError | IndexError | KeyError | AttributeError | TypeError | ZeroDivisionError

fun fl_add :: "npfloat \<Rightarrow> npfloat \<Rightarrow> npfloat" where
  "fl_add NaN _ = NaN"
| "fl_add _ NaN = NaN"
| "fl_add (Fin a) (Fin b) = Fin (a + b)"
| "fl_add PInf NInf = NaN"
| "fl_add NInf PInf = NaN"
| "fl_add PInf _ = PInf"
| "fl_add _ PInf = PInf"
| "fl_add NInf _ = NInf"
| "fl_add _ NInf = NInf"

fun fl_neg :: "npfloat \<Rightarrow> npfloat" where
  "fl_neg (Fin a) = Fin (- a)"
| "fl_neg PInf = NInf"
| "fl_neg NInf = PInf"
| "fl_neg NaN = NaN"

definition fl_sub :: "npfloat \<Rightarrow> npfloat \<Rightarrow> npfloat" where
  "fl_sub a b = fl_add a (fl_neg b)"

text \<open>Multiplication by a finite real factor (\<open>inf * 0.0\<close> is \<open>nan\<close>).\<close>

fun fl_scale :: "npfloat \<Rightarrow> real \<Rightarrow> npfloat" where
  "fl_scale (Fin a) u = Fin (a * u)"
| "fl_scale PInf u = (if u = 0 then NaN else if 0 < u then PInf else NInf)"
| "fl_scale NInf u = (if u = 0 then NaN else if 0 < u then NInf else PInf)"
| "fl_scale NaN u = NaN"

text \<open>
  Division of a numpy float by a Python integer: numpy does not raise on a zero divisor,
  it returns \<open>nan\<close> for \<open>0/0\<close> and a signed infinity otherwise.
\<close>

fun fl_div_int :: "npfloat \<Rightarrow> int \<Rightarrow> npfloat" where
  "fl_div_int (Fin s) d =
     (if d = 0 then (if s = 0 then NaN else if 0 < s then PInf else NInf)
      else Fin (s / real_of_int d))"
| "fl_div_int PInf d = (if d < 0 then NInf else PInf)"
| "fl_div_int NInf d = (if d < 0 then PInf else NInf)"
| "fl_div_int NaN d = NaN"

definition np_sum :: "npfloat list \<Rightarrow> npfloat" where
  "np_sum xs = foldl fl_add (Fin 0) xs"

fun is_finite :: "npfloat \<Rightarrow> bool" where
  "is_finite (Fin _) = True"
| "is_finite _ = False"

section \<open>The start-time fitter: reduced chi-square\<close>

text \<open>
  \<^verbatim>\<open>chi2 = (y_pred[y > 0] - y[y > 0]) ** 2 / y[y > 0]\<close>:
  the boolean mask \<open>y > 0\<close> selects the days with a strictly positive observed count;
  indexing \<open>y_pred\<close> with a mask of another length raises IndexError.
\<close>

fun chi2_term :: "npfloat \<Rightarrow> int \<Rightarrow> npfloat" where
  "chi2_term (Fin p) v = Fin ((p - real_of_int v)\<^sup>2 / real_of_int v)"
| "chi2_term PInf v = PInf"
| "chi2_term NInf v = PInf"
| "chi2_term NaN v = NaN"

definition chi2_terms :: "npfloat list \<Rightarrow> int list \<Rightarrow> npfloat list" where
  "chi2_terms y_pred y = map (\<lambda>(p, v). chi2_term p v) (filter (\<lambda>(p, v). 0 < v) (zip y_pred y))"

definition reduced_chi2 :: "npfloat list \<Rightarrow> int list \<Rightarrow> py_error + npfloat" where
  "reduced_chi2 y_pred y =
     (if length y_pred \<noteq> length y then Inl IndexError
      else let chi2 = chi2_terms y_pred y
           in Inr (fl_div_int (np_sum chi2) (int (length chi2) - 1)))"

text \<open>The number of strictly positive observed counts of a series.\<close>

definition positive_counts :: "int list \<Rightarrow> nat" where
  "positive_counts y = length (filter (\<lambda>v. 0 < v) y)"

section \<open>The ensemble runner: model runs and surge windows\<close>


record seir_model =
  results :: "(string \<times> real list) list"
  t_list :: "real list"
  beds_general :: npfloat
  beds_ICU :: npfloat
  ventilators :: npfloat

definition compartment_to_capacity_attr_map :: "(string \<times> string) list" where
  "compartment_to_capacity_attr_map =
     [(''HGen'', ''beds_general''), (''HICU'', ''beds_ICU''), (''HVent'', ''ventilators'')]"

definition getattr :: "seir_model \<Rightarrow> string \<Rightarrow> py_error + npfloat" where
  "getattr m a =
     (if a = ''beds_general'' then Inr (beds_general m)
      else if a = ''beds_ICU'' then Inr (beds_ICU m)
      else if a = ''ventilators'' then Inr (ventilators m)
      else Inl AttributeError)"

definition capacity_of :: "seir_model \<Rightarrow> string \<Rightarrow> py_error + npfloat" where
  "capacity_of m compartment =
     (case map_of compartment_to_capacity_attr_map compartment of
        None \<Rightarrow> Inl KeyError
      | Some a \<Rightarrow> getattr m a)"

fun fl_gt :: "real \<Rightarrow> npfloat \<Rightarrow> bool" where
  "fl_gt v (Fin c) = (c < v)"
| "fl_gt v PInf = False"
| "fl_gt v NInf = True"
| "fl_gt v NaN = False"

definition argwhere :: "bool list \<Rightarrow> nat list" where
  "argwhere bs = filter (\<lambda>i. bs ! i) [0..<length bs]"

definition np_index :: "real list \<Rightarrow> nat \<Rightarrow> py_error + npfloat" where
  "np_index xs i = (if i < length xs then Inr (Fin (xs ! i)) else Inl IndexError)"

definition first_time_over :: "real list \<Rightarrow> real list \<Rightarrow> npfloat \<Rightarrow> py_error + npfloat" where
  "first_time_over ts series cap =
     (let idx = argwhere (map (\<lambda>v. fl_gt v cap) series)
      in if 0 < length idx then np_index ts (hd idx) else Inr NaN)"

definition surge_window_of :: "seir_model \<Rightarrow> string \<Rightarrow> py_error + (npfloat \<times> npfloat)" where
  "surge_window_of m compartment =
     (case map_of (results m) compartment of
        None \<Rightarrow> Inl KeyError
      | Some series \<Rightarrow>
         (case capacity_of m compartment of
            Inl e \<Rightarrow> Inl e
          | Inr cap \<Rightarrow>
             (case first_time_over (t_list m) series cap of
                Inl e \<Rightarrow> Inl e
              | Inr s \<Rightarrow>
                 (case first_time_over (rev (t_list m)) (rev series) cap of
                    Inl e \<Rightarrow> Inl e
                  | Inr e \<Rightarrow> Inr (s, e)))))"

fun get_surge_window :: "seir_model list \<Rightarrow> string \<Rightarrow> py_error + (npfloat list \<times> npfloat list)" where
  "get_surge_window [] compartment = Inr ([], [])"
| "get_surge_window (m # ms) compartment =
     (case surge_window_of m compartment of
        Inl e \<Rightarrow> Inl e
      | Inr (s, e) \<Rightarrow>
         (case get_surge_window ms compartment of
            Inl e' \<Rightarrow> Inl e'
          | Inr (surge_start, surge_end) \<Rightarrow> Inr (s # surge_start, e # surge_end)))"

section \<open>The ensemble runner: percentile bands, peaks and the scenario output\<close>

datatype jval = JNum npfloat | JList "npfloat list"

datatype oval = OList "real list" | ODict "(string \<times> jval) list"

definition lerp_at :: "real list \<Rightarrow> real \<Rightarrow> real" where
  "lerp_at arr virtual_index =
     (let previous_index = nat \<lfloor>virtual_index\<rfloor>;
          next_index = min (previous_index + 1) (length arr - 1);
          gamma = virtual_index - real previous_index
      in arr ! previous_index + (arr ! next_index - arr ! previous_index) * gamma)"

definition percentile_linear :: "real list \<Rightarrow> real \<Rightarrow> real" where
  "percentile_linear a q = lerp_at (sort a) (real (length a - 1) * (q / 100))"

definition np_percentile :: "real list \<Rightarrow> real \<Rightarrow> py_error + npfloat" where
  "np_percentile a q =
     (if q < 0 \<or> 100 < q then Inl ValueError
      else if a = [] then Inr NaN
      else Inr (Fin (percentile_linear a q)))"

definition columns :: "real list list \<Rightarrow> real list list" where
  "columns value_stack =
     (case value_stack of
        [] \<Rightarrow> []
      | r # _ \<Rightarrow> map (\<lambda>j. map (\<lambda>row. row ! j) value_stack) [0..<length r])"

definition np_percentile_axis0 :: "real list list \<Rightarrow> real \<Rightarrow> py_error + real list" where
  "np_percentile_axis0 value_stack q =
     (if q < 0 \<or> 100 < q then Inl ValueError
      else Inr (map (\<lambda>col. percentile_linear col q) (columns value_stack)))"

definition digit_char :: "nat \<Rightarrow> char" where
  "digit_char d = ''0123456789'' ! d"

fun str_nat :: "nat \<Rightarrow> string" where
  "str_nat n = (if n < 10 then [digit_char n] else str_nat (n div 10) @ [digit_char (n mod 10)])"

definition fmt_i :: "int \<Rightarrow> string" where
  "fmt_i p = (if p < 0 then CHR ''-'' # str_nat (nat (- p)) else str_nat (nat p))"

fun append_run :: "seir_model \<Rightarrow> (string \<times> real list list) list \<Rightarrow>
    py_error + (string \<times> real list list) list" where
  "append_run m [] = Inr []"
| "append_run m ((key, value_stack) # rest) =
     (case map_of (results m) key of
        None \<Rightarrow> Inl KeyError
      | Some series \<Rightarrow>
         (case append_run m rest of
            Inl e \<Rightarrow> Inl e
          | Inr rest' \<Rightarrow> Inr ((key, value_stack @ [series]) # rest')))"

fun stack_runs :: "seir_model list \<Rightarrow> (string \<times> real list list) list \<Rightarrow>
    py_error + (string \<times> real list list) list" where
  "stack_runs [] compartments = Inr compartments"
| "stack_runs (m # ms) compartments =
     (case append_run m compartments of
        Inl e \<Rightarrow> Inl e
      | Inr compartments' \<Rightarrow> stack_runs ms compartments')"

definition np_vstack :: "real list list \<Rightarrow> py_error + real list list" where
  "np_vstack rows =
     (case rows of
        [] \<Rightarrow> Inl ValueError
      | r # rs \<Rightarrow> if \<forall>x\<in>set rs. length x = length r then Inr rows else Inl ValueError)"

fun vstack_all :: "(string \<times> real list list) list \<Rightarrow> py_error + (string \<times> real list list) list" where
  "vstack_all [] = Inr []"
| "vstack_all ((key, value_stack) # rest) =
     (case np_vstack value_stack of
        Inl e \<Rightarrow> Inl e
      | Inr mat \<Rightarrow>
         (case vstack_all rest of
            Inl e \<Rightarrow> Inl e
          | Inr rest' \<Rightarrow> Inr ((key, mat) # rest')))"

text \<open>
  \<^verbatim>\<open>{key: [] for key in model_ensemble[0].results.keys() if key not in ('t_list')}\<close>:
  \<open>('t_list')\<close> is a string, not a tuple, so the test is Python's substring test on
  \<open>'t_list'\<close>.
\<close>

definition compartment_keys :: "seir_model \<Rightarrow> string list" where
  "compartment_keys m0 = filter (\<lambda>key. \<not> sublist key ''t_list'') (map fst (results m0))"

definition generate_compartment_arrays ::
    "seir_model list \<Rightarrow> py_error + (string \<times> real list list) list" where
  "generate_compartment_arrays model_ensemble =
     (case model_ensemble of
        [] \<Rightarrow> Inl IndexError
      | m0 # _ \<Rightarrow>
         (let compartments = map (\<lambda>key. (key, [])) (compartment_keys m0)
          in case stack_runs model_ensemble compartments of
               Inl e \<Rightarrow> Inl e
             | Inr stacked \<Rightarrow> vstack_all stacked))"

fun sequence_err :: "(py_error + 'a) list \<Rightarrow> py_error + 'a list" where
  "sequence_err [] = Inr []"
| "sequence_err (x # xs) =
     (case x of
        Inl e \<Rightarrow> Inl e
      | Inr v \<Rightarrow> (case sequence_err xs of Inl e \<Rightarrow> Inl e | Inr vs \<Rightarrow> Inr (v # vs)))"

fun argmax_from :: "real list \<Rightarrow> nat \<Rightarrow> nat \<Rightarrow> real \<Rightarrow> nat" where
  "argmax_from [] i best best_value = best"
| "argmax_from (x # xs) i best best_value =
     (if best_value < x then argmax_from xs (Suc i) i x
      else argmax_from xs (Suc i) best best_value)"

definition np_argmax :: "real list \<Rightarrow> py_error + nat" where
  "np_argmax xs = (case xs of [] \<Rightarrow> Inl ValueError | x # rest \<Rightarrow> Inr (argmax_from rest 1 0 x))"

definition py_index :: "real list \<Rightarrow> nat \<Rightarrow> py_error + real" where
  "py_index xs i = (if i < length xs then Inr (xs ! i) else Inl IndexError)"

definition np_mean :: "real list \<Rightarrow> npfloat" where
  "np_mean xs = (if xs = [] then NaN else Fin (sum_list xs / real (length xs)))"

definition dict_update :: "('k \<times> 'v) list \<Rightarrow> ('k \<times> 'v) list \<Rightarrow> ('k \<times> 'v) list" where
  "dict_update d other = fold (\<lambda>(k, v). AList.update k v) other d"

fun peak_percentiles :: "int list \<Rightarrow> real list \<Rightarrow> real list \<Rightarrow> (string \<times> jval) list \<Rightarrow>
    py_error + (string \<times> jval) list" where
  "peak_percentiles [] values_at_peak_index peak_times peak_data = Inr peak_data"
| "peak_percentiles (percentile # rest) values_at_peak_index peak_times peak_data =
     (case np_percentile values_at_peak_index (real_of_int percentile) of
        Inl e \<Rightarrow> Inl e
      | Inr pv \<Rightarrow>
         (case np_percentile peak_times (real_of_int percentile) of
            Inl e \<Rightarrow> Inl e
          | Inr pt \<Rightarrow>
              peak_percentiles rest values_at_peak_index peak_times
                (AList.update (''peak_time_ci'' @ fmt_i percentile) (JNum pt)
                  (AList.update (''peak_value_ci'' @ fmt_i percentile) (JNum pv) peak_data))))"

definition detect_peak_time_and_value ::
    "int list \<Rightarrow> real list list \<Rightarrow> real list \<Rightarrow> py_error + (string \<times> jval) list" where
  "detect_peak_time_and_value output_percentiles value_stack ts =
     (case sequence_err (map np_argmax value_stack) of
        Inl e \<Rightarrow> Inl e
      | Inr peak_indices \<Rightarrow>
         (case sequence_err (map (py_index ts) peak_indices) of
            Inl e \<Rightarrow> Inl e
          | Inr peak_times \<Rightarrow>
             (let values_at_peak_index = map (\<lambda>(val, idx). val ! idx) (zip value_stack peak_indices)
              in case peak_percentiles output_percentiles values_at_peak_index peak_times [] of
                   Inl e \<Rightarrow> Inl e
                 | Inr peak_data \<Rightarrow>
                     Inr (AList.update ''peak_value_mean'' (JNum (np_mean values_at_peak_index))
                            peak_data))))"

fun ci_percentiles :: "int list \<Rightarrow> real list list \<Rightarrow> (string \<times> jval) list \<Rightarrow>
    py_error + (string \<times> jval) list" where
  "ci_percentiles [] value_stack d = Inr d"
| "ci_percentiles (percentile # rest) value_stack d =
     (case np_percentile_axis0 value_stack (real_of_int percentile) of
        Inl e \<Rightarrow> Inl e
      | Inr band \<Rightarrow>
          ci_percentiles rest value_stack
            (AList.update (''ci_'' @ fmt_i percentile) (JList (map Fin band)) d))"

definition surge_output :: "seir_model list \<Rightarrow> string \<Rightarrow> py_error + (string \<times> jval) list" where
  "surge_output model_ensemble compartment =
     (if compartment \<in> fst ` set compartment_to_capacity_attr_map then
        (case get_surge_window model_ensemble compartment of
           Inl e \<Rightarrow> Inl e
         | Inr (surge_start, surge_end) \<Rightarrow>
            (case sequence_err (map (\<lambda>m. capacity_of m compartment) model_ensemble) of
               Inl e \<Rightarrow> Inl e
             | Inr capacity \<Rightarrow>
                 Inr (AList.update ''capacity'' (JList capacity)
                       (AList.update ''surge_start'' (JList surge_end)
                         (AList.update ''surge_start'' (JList surge_start) [])))))
      else Inr [])"

definition compartment_step :: "int list \<Rightarrow> seir_model list \<Rightarrow> real list \<Rightarrow> string \<Rightarrow>
    real list list \<Rightarrow> (string \<times> oval) list \<Rightarrow> py_error + (string \<times> oval) list" where
  "compartment_step output_percentiles model_ensemble ts compartment value_stack outputs =
     (case (case map_of outputs compartment of
              None \<Rightarrow> Inr []
            | Some (ODict d) \<Rightarrow> Inr d
            | Some (OList _) \<Rightarrow> Inl TypeError) of
        Inl e \<Rightarrow> Inl e
      | Inr d0 \<Rightarrow>
         (case ci_percentiles output_percentiles value_stack d0 of
            Inl e \<Rightarrow> Inl e
          | Inr d1 \<Rightarrow>
             (case surge_output model_ensemble compartment of
                Inl e \<Rightarrow> Inl e
              | Inr compartment_output \<Rightarrow>
                 (case detect_peak_time_and_value output_percentiles value_stack ts of
                    Inl e \<Rightarrow> Inl e
                  | Inr peak_data \<Rightarrow>
                      Inr (AList.update compartment
                             (ODict (dict_update d1 (dict_update compartment_output peak_data)))
                             outputs)))))"

fun compartments_loop :: "int list \<Rightarrow> seir_model list \<Rightarrow> real list \<Rightarrow>
    (string \<times> real list list) list \<Rightarrow> (string \<times> oval) list \<Rightarrow> py_error + (string \<times> oval) list" where
  "compartments_loop output_percentiles model_ensemble ts [] outputs = Inr outputs"
| "compartments_loop output_percentiles model_ensemble ts ((compartment, value_stack) # rest) outputs =
     (case compartment_step output_percentiles model_ensemble ts compartment value_stack outputs of
        Inl e \<Rightarrow> Inl e
      | Inr outputs' \<Rightarrow> compartments_loop output_percentiles model_ensemble ts rest outputs')"

definition generate_output_for_suppression_policy ::
    "int list \<Rightarrow> seir_model list \<Rightarrow> py_error + (string \<times> oval) list" where
  "generate_output_for_suppression_policy output_percentiles model_ensemble =
     (case model_ensemble of
        [] \<Rightarrow> Inl IndexError
      | m0 # _ \<Rightarrow>
         (case generate_compartment_arrays model_ensemble of
            Inl e \<Rightarrow> Inl e
          | Inr arrays \<Rightarrow>
              compartments_loop output_percentiles model_ensemble (t_list m0) arrays
                [(''t_list'', OList (t_list m0))]))"

text \<open>The stacks that \<open>np.vstack\<close> accepts: at least one row, all rows of one length.\<close>

definition vstack_ok :: "real list list \<Rightarrow> bool" where
  "vstack_ok rows = (rows \<noteq> [] \<and> (\<forall>x\<in>set rows. length x = length (hd rows)))"

section \<open>The start-time fitter\<close>

text \<open>
  One row of the case table for a region and a day. Dates are day numbers counted from
  2020-01-01, the anchor of the imputation step.
\<close>

record case_row =
  row_fips :: string
  row_date :: int
  row_cases :: int
  row_county :: string
  row_state :: string

text \<open>
  The attributes that \<open>InitialConditionsFitter.__init__\<close> sets; the attribute \<open>self.x\<close>
  is the field \<open>self_x\<close>. The attributes set to \<open>None\<close> there are the fields of the
  \<open>fitted\<close> record that \<open>fit\<close> returns.
\<close>

record fitter =
  self_t0_case_count :: int
  self_start_days_before_t0 :: int
  self_start_days_after_t0 :: int
  self_min_days_required :: int
  self_cases :: "case_row list"
  self_fips :: string
  self_county :: string
  self_state :: string
  self_t :: "int list"
  self_data_start_date :: int
  self_y :: "int list"

definition values0 :: "'a list \<Rightarrow> py_error + 'a" where
  "values0 xs = (case xs of [] \<Rightarrow> Inl IndexError | x # _ \<Rightarrow> Inr x)"

definition date_min :: "int list \<Rightarrow> int" where
  "date_min ds = foldl min (hd ds) (tl ds)"

definition InitialConditionsFitter_init ::
    "case_row list \<Rightarrow> string \<Rightarrow> int \<Rightarrow> int \<Rightarrow> int \<Rightarrow> int \<Rightarrow> py_error + fitter" where
  "InitialConditionsFitter_init case_data fips t0_case_count start_days_before_t0
       start_days_after_t0 min_days_required =
     (let cases = filter (\<lambda>r. row_fips r = fips) case_data;
          n_days = int (length cases)
      in if n_days < min_days_required then Inl ValueError
         else
           (case values0 (map row_county cases) of
              Inl e \<Rightarrow> Inl e
            | Inr county \<Rightarrow>
               (case values0 (map row_state cases) of
                  Inl e \<Rightarrow> Inl e
                | Inr state \<Rightarrow>
                    Inr \<lparr>self_t0_case_count = t0_case_count,
                         self_start_days_before_t0 = start_days_before_t0,
                         self_start_days_after_t0 = start_days_after_t0,
                         self_min_days_required = min_days_required,
                         self_cases = cases,
                         self_fips = fips,
                         self_county = county,
                         self_state = state,
                         self_t = map (\<lambda>r. row_date r - date_min (map row_date cases)) cases,
                         self_data_start_date = date_min (map row_date cases),
                         self_y = map row_cases cases\<rparr>)))"

text \<open>
  \<^verbatim>\<open>norm * np.exp((t - t0) / scale)\<close> on a numpy array \<open>t\<close>: a zero \<open>scale\<close> does
  not raise, the quotient is an infinity or \<open>nan\<close> (the zero is taken as positive zero).
\<close>

definition exponential_model :: "real \<Rightarrow> real \<Rightarrow> real \<Rightarrow> real \<Rightarrow> npfloat" where
  "exponential_model norm0 t0 scale t =
     (if scale = 0 then
        (if t0 < t then fl_scale PInf norm0
         else if t < t0 then Fin 0
         else NaN)
      else Fin (norm0 * exp ((t - t0) / scale)))"

record model_params =
  mp_norm :: real
  mp_t0 :: real
  mp_scale :: real

definition predictions :: "model_params \<Rightarrow> int list \<Rightarrow> npfloat list" where
  "predictions p ts = map (\<lambda>t. exponential_model (mp_norm p) (mp_t0 p) (mp_scale p) (real_of_int t)) ts"

definition exponential_loss :: "fitter \<Rightarrow> real \<Rightarrow> real \<Rightarrow> real \<Rightarrow> py_error + npfloat" where
  "exponential_loss self norm0 t0 scale =
     (let y_pred = map (\<lambda>t. exponential_model norm0 t0 scale (real_of_int t)) (self_t self)
      in reduced_chi2 y_pred (self_y self))"

text \<open>
  \<open>iminuit.Minuit(self.exponential_loss, **x0, errordef=0.5).migrad()\<close> is an external
  optimizer: it is a parameter \<open>minimize\<close> of the model, a function from the loss it is
  given (the start values are fixed) to the fitted parameters or an error. The arguments
  \<open>t\<close> and \<open>y\<close> of \<open>fit_county_initial_conditions\<close> are not used in its body.
\<close>

type_synonym loss = "real \<Rightarrow> real \<Rightarrow> real \<Rightarrow> py_error + npfloat"

definition fit_county_initial_conditions ::
    "(loss \<Rightarrow> py_error + model_params) \<Rightarrow> fitter \<Rightarrow> int list \<Rightarrow> int list \<Rightarrow> py_error + model_params" where
  "fit_county_initial_conditions minimize self t y = minimize (exponential_loss self)"

fun fl_is_nan :: "npfloat \<Rightarrow> bool" where
  "fl_is_nan NaN = True"
| "fl_is_nan _ = False"

fun fl_abs :: "npfloat \<Rightarrow> npfloat" where
  "fl_abs (Fin a) = Fin \<bar>a\<bar>"
| "fl_abs PInf = PInf"
| "fl_abs NInf = PInf"
| "fl_abs NaN = NaN"

fun fl_lt :: "npfloat \<Rightarrow> npfloat \<Rightarrow> bool" where
  "fl_lt NaN _ = False"
| "fl_lt _ NaN = False"
| "fl_lt (Fin a) (Fin b) = (a < b)"
| "fl_lt _ NInf = False"
| "fl_lt NInf _ = True"
| "fl_lt PInf _ = False"
| "fl_lt _ PInf = True"

fun argmin_from :: "npfloat list \<Rightarrow> nat \<Rightarrow> nat \<Rightarrow> npfloat \<Rightarrow> nat" where
  "argmin_from [] i best best_value = best"
| "argmin_from (x # xs) i best best_value =
     (if fl_lt x best_value then argmin_from xs (Suc i) i x
      else argmin_from xs (Suc i) best best_value)"

text \<open>\<open>np.argmin\<close>: the index of the first \<open>nan\<close> if there is one, else of the first minimum.\<close>

definition np_argmin :: "npfloat list \<Rightarrow> py_error + nat" where
  "np_argmin xs =
     (case xs of
        [] \<Rightarrow> Inl ValueError
      | x # rest \<Rightarrow>
         (case argwhere (map fl_is_nan xs) of
            i # _ \<Rightarrow> Inr i
          | [] \<Rightarrow> Inr (argmin_from rest 1 0 x)))"

definition t0_index :: "npfloat list \<Rightarrow> int \<Rightarrow> py_error + nat" where
  "t0_index fit_predictions t0_case_count =
     np_argmin (map (\<lambda>p. fl_abs (fl_sub p (Fin (real_of_int t0_case_count)))) fit_predictions)"

text \<open>Python's \<open>xs[a:b]\<close> for \<open>a \<ge> 0\<close>; a negative \<open>b\<close> counts from the end.\<close>

definition py_slice :: "'a list \<Rightarrow> int \<Rightarrow> int \<Rightarrow> 'a list" where
  "py_slice xs a b =
     (let n = int (length xs);
          stop = (if b < 0 then max 0 (b + n) else min b n);
          start = min a n
      in take (nat (stop - start)) (drop (nat start) xs))"

record fitted =
  fit_model_params :: model_params
  fit_predictions :: "npfloat list"
  fit_reduced_chi2 :: npfloat
  fit_t0_idx :: nat
  fit_t0 :: int
  fit_t0_date :: int

text \<open>
  The window of \<open>fit\<close>: the observations from \<open>start_days_before_t0\<close> days before the
  threshold index to \<open>start_days_after_t0\<close> days after it, clamped to the data.
\<close>

definition fit_window :: "fitter \<Rightarrow> nat \<Rightarrow> int list \<times> int list" where
  "fit_window self t0_idx =
     (let filter_start = max 0 (int t0_idx - self_start_days_before_t0 self);
          filter_end = min (int (length (self_t self)))
                           (int t0_idx + self_start_days_after_t0 self);
          t_filtered = py_slice (self_t self) filter_start filter_end;
          y_filtered = py_slice (self_y self) filter_start filter_end
      in (t_filtered, y_filtered))"

definition fit :: "(loss \<Rightarrow> py_error + model_params) \<Rightarrow> fitter \<Rightarrow> py_error + fitted" where
  "fit minimize self =
     (case fit_county_initial_conditions minimize self (self_t self) (self_y self) of
        Inl e \<Rightarrow> Inl e
      | Inr model_params0 \<Rightarrow>
         (case t0_index (predictions model_params0 (self_t self)) (self_t0_case_count self) of
            Inl e \<Rightarrow> Inl e
          | Inr t0_idx \<Rightarrow>
             (let (t_filtered, y_filtered) = fit_window self t0_idx
              in case fit_county_initial_conditions minimize self t_filtered y_filtered of
                   Inl e \<Rightarrow> Inl e
                 | Inr model_params1 \<Rightarrow>
                    (case exponential_loss self (mp_norm model_params1) (mp_t0 model_params1)
                            (mp_scale model_params1) of
                       Inl e \<Rightarrow> Inl e
                     | Inr chi2 \<Rightarrow>
                        (case t0_index (predictions model_params1 (self_t self))
                                (self_t0_case_count self) of
                           Inl e \<Rightarrow> Inl e
                         | Inr t0_idx1 \<Rightarrow>
                             Inr \<lparr>fit_model_params = model_params1,
                                  fit_predictions = predictions model_params1 (self_t self),
                                  fit_reduced_chi2 = chi2,
                                  fit_t0_idx = t0_idx1,
                                  fit_t0 = self_t self ! t0_idx1,
                                  fit_t0_date = self_data_start_date self + self_t self ! t0_idx1\<rparr>)))))"

text \<open>
  The spec's wording of the refit: the loss of the exponential model over a given subset
  of the observations. \<open>exponential_loss self\<close> is this loss over all observations.
\<close>

definition windowed_loss :: "int list \<Rightarrow> int list \<Rightarrow> loss" where
  "windowed_loss t_window y_window norm0 t0 scale =
     reduced_chi2 (map (\<lambda>t. exponential_model norm0 t0 scale (real_of_int t)) t_window) y_window"

text \<open>
  One value of the loss is smaller than another: both are numbers that compare by \<open><\<close>
  (a comparison with \<open>nan\<close> is false).
\<close>

definition loss_less :: "py_error + npfloat \<Rightarrow> py_error + npfloat \<Rightarrow> bool" where
  "loss_less a b = (case (a, b) of (Inr x, Inr y) \<Rightarrow> fl_lt x y | _ \<Rightarrow> False)"

section \<open>The parameter ensemble generator\<close>

text \<open>
  The two reference tables. A row of the region metadata holds the region's labels and
  the three numeric columns that the code reads; a row of the hospital table is one
  facility, with cells that may be missing (\<open>NaN\<close>).
\<close>

record county_meta =
  meta_fips :: string
  meta_state :: string
  meta_county :: string
  population_density :: real
  housing_density :: real
  total_population :: real

record hospital_row =
  hosp_fips :: string
  num_licensed_beds :: npfloat
  num_staffed_beds :: npfloat
  num_icu_beds :: npfloat
  bed_utilization :: npfloat
  potential_increase_in_bed_capac :: npfloat

text \<open>\<open>groupby('fips').sum()\<close>: one row per region of the hospital table, each column
  summed over the region's facilities; pandas skips \<open>NaN\<close> cells in a sum.\<close>

definition nansum :: "npfloat list \<Rightarrow> npfloat" where
  "nansum xs = np_sum (filter (\<lambda>v. \<not> fl_is_nan v) xs)"

definition groupby_sum :: "hospital_row list \<Rightarrow> string \<Rightarrow> (string \<times> npfloat) list option" where
  "groupby_sum hospital_bed_data f =
     (let g = filter (\<lambda>r. hosp_fips r = f) hospital_bed_data
      in if g = [] then None
         else Some [(''num_licensed_beds'', nansum (map num_licensed_beds g)),
                    (''num_staffed_beds'', nansum (map num_staffed_beds g)),
                    (''num_icu_beds'', nansum (map num_icu_beds g)),
                    (''bed_utilization'', nansum (map bed_utilization g)),
                    (''potential_increase_in_bed_capac'',
                       nansum (map potential_increase_in_bed_capac g))])"

text \<open>
  \<open>county_metadata.merge(hospital_bed_data, on='fips', how='left')\<close>: every metadata
  row is kept; the hospital columns of a region without a row in the grouped hospital
  table are filled with \<open>NaN\<close>. The merged row is the dictionary of the numeric columns
  (the label columns are never read).
\<close>

definition merge_left_row :: "hospital_row list \<Rightarrow> county_meta \<Rightarrow> (string \<times> npfloat) list" where
  "merge_left_row hospital_bed_data m =
     [(''population_density'', Fin (population_density m)),
      (''housing_density'', Fin (housing_density m)),
      (''total_population'', Fin (total_population m))] @
     (case groupby_sum hospital_bed_data (meta_fips m) of
        Some grouped \<Rightarrow> grouped
      | None \<Rightarrow> [(''num_licensed_beds'', NaN), (''num_staffed_beds'', NaN),
                 (''num_icu_beds'', NaN), (''bed_utilization'', NaN),
                 (''potential_increase_in_bed_capac'', NaN)])"

text \<open>
  \<open>.set_index('fips').loc[fips].to_dict()\<close>: KeyError without a row for the region, the
  row's dictionary for one row; for several rows \<open>loc\<close> gives a frame, whose
  \<open>to_dict()\<close> maps a column to a dictionary.
\<close>

datatype loc_result = Row "(string \<times> npfloat) list" | Frame

type_synonym policy = "(real \<Rightarrow> real) option"

record generator =
  gen_fips :: string
  gen_N_samples :: int
  gen_I_initial :: real
  gen_suppression_policy :: policy
  gen_t_list :: "real list"
  gen_county_metadata_merged :: loc_result

definition ParameterEnsembleGenerator_init ::
    "county_meta list \<Rightarrow> hospital_row list \<Rightarrow> string \<Rightarrow> int \<Rightarrow> real list \<Rightarrow> real \<Rightarrow> policy \<Rightarrow>
     py_error + generator" where
  "ParameterEnsembleGenerator_init county_metadata hospital_bed_data fips N_samples ts
       I_initial suppression_policy =
     (case map (merge_left_row hospital_bed_data)
             (filter (\<lambda>m. meta_fips m = fips) county_metadata) of
        [] \<Rightarrow> Inl KeyError
      | row # others \<Rightarrow>
          Inr \<lparr>gen_fips = fips, gen_N_samples = N_samples, gen_I_initial = I_initial,
               gen_suppression_policy = suppression_policy, gen_t_list = ts,
               gen_county_metadata_merged = (if others = [] then Row row else Frame)\<rparr>)"

text \<open>The values of one \<open>np.random\<close> call each, in the order of the calls of one draw.\<close>

record prior_draws =
  d_hospitalization_rate_general :: real
  d_fraction_asymptomatic :: real
  d_R0 :: real
  d_icu_given_hospitalized :: real
  d_fraction_icu_requiring_ventilator :: real
  d_incubation_days :: real
  d_delta_inverse :: real
  d_symptoms_to_hospital_days :: real
  d_symptoms_to_mortality_days :: real
  d_length_of_stay_general :: real
  d_length_of_stay_icu :: real
  d_length_of_stay_icu_and_ventilator :: real
  d_mortality_rate :: real
  d_mortality_rate_no_general_beds :: real
  d_mortality_rate_no_ICU_beds :: real
  d_ventilator_multiplier :: real

datatype pval = PNum npfloat | PArr "real list" | PPolicy policy

definition dict_get :: "(string \<times> npfloat) list \<Rightarrow> string \<Rightarrow> npfloat \<Rightarrow> npfloat" where
  "dict_get d key fallback = (case map_of d key of Some v \<Rightarrow> v | None \<Rightarrow> fallback)"

definition sample_one :: "generator \<Rightarrow> prior_draws \<Rightarrow> py_error + (string \<times> pval) list" where
  "sample_one self d =
     (case gen_county_metadata_merged self of
        Frame \<Rightarrow>
          (if d_fraction_asymptomatic d = 1 \<or> d_incubation_days d = 0 \<or> d_delta_inverse d = 0
           then Inl ZeroDivisionError else Inl TypeError)
      | Row merged \<Rightarrow>
          (case map_of merged ''total_population'' of
             None \<Rightarrow> Inl KeyError
           | Some n \<Rightarrow>
              (if d_fraction_asymptomatic d = 1 \<or> d_incubation_days d = 0 \<or> d_delta_inverse d = 0
               then Inl ZeroDivisionError
               else Inr
                 [(''t_list'', PArr (gen_t_list self)),
                  (''N'', PNum n),
                  (''A_initial'', PNum (Fin (d_fraction_asymptomatic d * gen_I_initial self
                                              / (1 - d_fraction_asymptomatic d)))),
                  (''I_initial'', PNum (Fin (gen_I_initial self))),
                  (''R_initial'', PNum (Fin 0)),
                  (''E_initial'', PNum (Fin 0)),
                  (''D_initial'', PNum (Fin 0)),
                  (''HGen_initial'', PNum (Fin 0)),
                  (''HICU_initial'', PNum (Fin 0)),
                  (''HICUVent_initial'', PNum (Fin 0)),
                  (''suppression_policy'', PPolicy (gen_suppression_policy self)),
                  (''R0'', PNum (Fin (d_R0 d))),
                  (''hospitalization_rate_general'', PNum (Fin (d_hospitalization_rate_general d))),
                  (''hospitalization_rate_icu'',
                     PNum (Fin (max (d_icu_given_hospitalized d * d_hospitalization_rate_general d) 0))),
                  (''fraction_icu_requiring_ventilator'',
                     PNum (Fin (max (d_fraction_icu_requiring_ventilator d) 0))),
                  (''sigma'', PNum (Fin (1 / d_incubation_days d))),
                  (''delta'', PNum (Fin (1 / d_delta_inverse d))),
                  (''kappa'', PNum (Fin 1)),
                  (''gamma'', PNum (Fin (d_fraction_asymptomatic d))),
                  (''symptoms_to_hospital_days'', PNum (Fin (d_symptoms_to_hospital_days d))),
                  (''symptoms_to_mortality_days'', PNum (Fin (d_symptoms_to_mortality_days d))),
                  (''hospitalization_length_of_stay_general'', PNum (Fin (d_length_of_stay_general d))),
                  (''hospitalization_length_of_stay_icu'', PNum (Fin (d_length_of_stay_icu d))),
                  (''hospitalization_length_of_stay_icu_and_ventilator'',
                     PNum (Fin (d_length_of_stay_icu_and_ventilator d))),
                  (''mortality_rate'', PNum (Fin (d_mortality_rate d))),
                  (''mortality_rate_no_general_beds'', PNum (Fin (d_mortality_rate_no_general_beds d))),
                  (''mortality_rate_no_ICU_beds'', PNum (Fin (d_mortality_rate_no_ICU_beds d))),
                  (''mortality_rate_no_ventilator'', PNum (Fin 1)),
                  (''beds_general'',
                     PNum (fl_add (fl_sub (dict_get merged ''num_licensed_beds'' (Fin 0))
                                          (dict_get merged ''bed_utilization'' (Fin 0)))
                                  (dict_get merged ''potential_increase_in_bed_capac'' (Fin 0)))),
                  (''beds_ICU'', PNum (dict_get merged ''num_icu_beds'' (Fin 0))),
                  (''ventilators'',
                     PNum (fl_scale (dict_get merged ''num_icu_beds'' (Fin 0))
                                    (d_ventilator_multiplier d)))])))"

text \<open>
  \<open>sample_seir_parameters\<close>: one draw per iteration of \<open>range(N_samples)\<close>, the draws
  of iteration \<open>i\<close> being \<open>draws i\<close>; then every parameter set is updated with the
  override dictionary.
\<close>

definition sample_seir_parameters ::
    "generator \<Rightarrow> (nat \<Rightarrow> prior_draws) \<Rightarrow> (string \<times> pval) list \<Rightarrow>
     py_error + (string \<times> pval) list list" where
  "sample_seir_parameters self draws override_params =
     (case sequence_err (map (\<lambda>i. sample_one self (draws i)) [0..<nat (gen_N_samples self)]) of
        Inl e \<Rightarrow> Inl e
      | Inr parameter_sets \<Rightarrow>
          Inr (map (\<lambda>parameter_set. dict_update parameter_set override_params) parameter_sets))"

section \<open>The start-time imputation for a state\<close>

text \<open>\<open>str.lower()\<close> on the letters A to Z.\<close>

definition lower_char :: "char \<Rightarrow> char" where
  "lower_char c =
     (case map_of (zip ''ABCDEFGHIJKLMNOPQRSTUVWXYZ'' ''abcdefghijklmnopqrstuvwxyz'') c of
        Some l \<Rightarrow> l
      | None \<Rightarrow> c)"

definition str_lower :: "string \<Rightarrow> string" where
  "str_lower s = map lower_char s"

record fit_summary =
  s_model_params :: model_params
  s_t0_date :: int
  s_reduced_chi2 :: npfloat

text \<open>
  The body of the loop over the counties: the fitter is constructed with
  \<open>t0_case_count=1, start_days_before_t0=0, start_days_after_t0=1000\<close> and the default
  \<open>min_days_required=5\<close>; a ValueError of the constructor or of the fit is caught and the
  region gets the summary of \<open>None\<close> values, any other error ends the run. The plot of
  the fit is not modelled.
\<close>

definition fit_region ::
    "(loss \<Rightarrow> py_error + model_params) \<Rightarrow> case_row list \<Rightarrow> string \<Rightarrow> py_error + fit_summary option" where
  "fit_region minimize case_data fips =
     (case InitialConditionsFitter_init case_data fips 1 0 1000 5 of
        Inl e \<Rightarrow> (if e = ValueError then Inr None else Inl e)
      | Inr fitter \<Rightarrow>
         (case fit minimize fitter of
            Inl e \<Rightarrow> (if e = ValueError then Inr None else Inl e)
          | Inr r \<Rightarrow>
              Inr (Some \<lparr>s_model_params = fit_model_params r, s_t0_date = fit_t0_date r,
                         s_reduced_chi2 = fit_reduced_chi2 r\<rparr>)))"

fun fit_counties ::
    "(loss \<Rightarrow> py_error + model_params) \<Rightarrow> case_row list \<Rightarrow> string list \<Rightarrow>
     (string \<times> fit_summary option) list \<Rightarrow> py_error + (string \<times> fit_summary option) list" where
  "fit_counties minimize case_data [] fips_to_fit_map = Inr fips_to_fit_map"
| "fit_counties minimize case_data (fips # rest) fips_to_fit_map =
     (case fit_region minimize case_data fips of
        Inl e \<Rightarrow> Inl e
      | Inr summary \<Rightarrow>
          fit_counties minimize case_data rest (AList.update fips summary fips_to_fit_map))"

text \<open>\<open>np.log\<close> of a column value: \<open>-inf\<close> at zero, \<open>nan\<close> below.\<close>

definition np_log :: "real \<Rightarrow> npfloat" where
  "np_log x = (if 0 < x then Fin (ln x) else if x = 0 then NInf else NaN)"

type_synonym features = "npfloat \<times> npfloat \<times> npfloat"

definition log_features :: "county_meta \<Rightarrow> features" where
  "log_features m =
     (np_log (population_density m), np_log (housing_density m), np_log (total_population m))"

text \<open>
  A row of the combined table: the fit columns (\<open>None\<close> for a missing value), the
  metadata of the region, the day count from 2020-01-01, the imputation flag and the
  doubling time. Dates are day numbers from 2020-01-01, so the start date of a row is a
  real number of days once it may be imputed.
\<close>

record imputation_row =
  r_fips :: string
  r_model_params :: "model_params option"
  r_t0_date :: real
  r_reduced_chi2 :: "npfloat option"
  r_meta :: county_meta
  days_from_2020_01_01 :: real
  imputed_start_time :: bool
  doubling_rate_days :: npfloat

text \<open>
  The inner merge of the fits with the metadata on \<open>fips\<close>, before any column is
  derived: one entry per fit and matching metadata row.
\<close>

definition merge_fits ::
    "(string \<times> fit_summary option) list \<Rightarrow> county_meta list \<Rightarrow>
     (string \<times> fit_summary option \<times> county_meta) list" where
  "merge_fits county_fits metadata =
     concat (map (\<lambda>(fips, summary).
                    map (\<lambda>m. (fips, summary, m)) (filter (\<lambda>m. meta_fips m = fips) metadata))
                 county_fits)"

text \<open>
  The rows with a start date (\<open>samples_with_data\<close>) keep it and get the doubling time
  \<open>np.log(2) * model_params['scale']\<close>; the rows without (\<open>samples_with_no_data\<close>) get
  the predicted day count and date, in the order of the rows, the flag
  \<open>imputed_start_time\<close>, and no doubling time. Both masks are taken before the
  imputation.
\<close>

definition fitted_row :: "string \<Rightarrow> fit_summary \<Rightarrow> county_meta \<Rightarrow> imputation_row" where
  "fitted_row fips s m =
     \<lparr>r_fips = fips, r_model_params = Some (s_model_params s),
      r_t0_date = real_of_int (s_t0_date s),
      r_reduced_chi2 = Some (s_reduced_chi2 s), r_meta = m,
      days_from_2020_01_01 = real_of_int (s_t0_date s),
      imputed_start_time = False,
      doubling_rate_days = Fin (ln 2 * mp_scale (s_model_params s))\<rparr>"

definition imputed_row :: "string \<Rightarrow> county_meta \<Rightarrow> real \<Rightarrow> imputation_row" where
  "imputed_row fips m predicted_days =
     \<lparr>r_fips = fips, r_model_params = None,
      r_t0_date = predicted_days,
      r_reduced_chi2 = None, r_meta = m,
      days_from_2020_01_01 = predicted_days,
      imputed_start_time = True,
      doubling_rate_days = NaN\<rparr>"

fun fill_rows :: "(string \<times> fit_summary option \<times> county_meta) list \<Rightarrow> real list \<Rightarrow>
    py_error + imputation_row list" where
  "fill_rows [] predicted = Inr []"
| "fill_rows ((fips, Some s, m) # rest) predicted =
     (case fill_rows rest predicted of
        Inl e \<Rightarrow> Inl e
      | Inr rows \<Rightarrow> Inr (fitted_row fips s m # rows))"
| "fill_rows ((fips, None, m) # rest) [] = Inl ValueError"
| "fill_rows ((fips, None, m) # rest) (p # predicted) =
     (case fill_rows rest predicted of
        Inl e \<Rightarrow> Inl e
      | Inr rows \<Rightarrow> Inr (imputed_row fips m p # rows))"

text \<open>
  The regression step (the cross-validation of the three candidate estimators and the
  fit of the Bayesian ridge model) is an external collaborator: the parameter \<open>train\<close>
  takes the log features and day counts of the rows with data and returns the fitted
  model's \<open>predict\<close>, or the error that scikit-learn raises; \<open>predict\<close> is called only
  when some row has no data, and assigning a prediction array of another length than the
  rows without data raises ValueError. Without any row with data the column \<open>t0_date\<close>
  holds no date and the \<open>.dt\<close> accessor raises AttributeError.
\<close>

type_synonym predictor = "features list \<Rightarrow> py_error + real list"

definition generate_start_times_for_state ::
    "(loss \<Rightarrow> py_error + model_params) \<Rightarrow>
     ((features \<times> real) list \<Rightarrow> py_error + predictor) \<Rightarrow>
     case_row list \<Rightarrow> county_meta list \<Rightarrow> string \<Rightarrow> py_error + imputation_row list" where
  "generate_start_times_for_state minimize train case_data metadata state =
     (let counties = map meta_fips
                       (filter (\<lambda>m. str_lower (meta_state m) = str_lower state) metadata)
      in if length counties = 0 then Inl ValueError
         else
           (case fit_counties minimize case_data counties [] of
              Inl e \<Rightarrow> Inl e
            | Inr fips_to_fit_map \<Rightarrow>
               (let merged = merge_fits fips_to_fit_map metadata;
                    samples_with_data = filter (\<lambda>(fips, summary, m). summary \<noteq> None) merged;
                    samples_with_no_data = filter (\<lambda>(fips, summary, m). summary = None) merged
                in if samples_with_data = [] then Inl AttributeError
                   else
                     (case train (map (\<lambda>(fips, summary, m).
                                        (log_features m, real_of_int (s_t0_date (the summary))))
                                      samples_with_data) of
                        Inl e \<Rightarrow> Inl e
                      | Inr predict \<Rightarrow>
                         (if samples_with_no_data = [] then fill_rows merged []
                          else
                            (case predict (map (\<lambda>(fips, summary, m). log_features m)
                                               samples_with_no_data) of
                               Inl e \<Rightarrow> Inl e
                             | Inr predicted \<Rightarrow>
                                 (if length predicted \<noteq> length samples_with_no_data
                                  then Inl ValueError
                                  else fill_rows merged predicted)))))))"

section \<open>Properties of the reduced chi-square\<close>

lemma length_chi2_terms:
  "length y_pred = length y \<Longrightarrow> length (chi2_terms y_pred y) = positive_counts y"
proof (induction y_pred y rule: list_induct2)
  case Nil
  show ?case by (simp add: chi2_terms_def positive_counts_def)
next
  case (Cons p ps v vs)
  then show ?case by (simp add: chi2_terms_def positive_counts_def)
qed

lemma fl_div_int_zero_not_finite: "\<not> is_finite (fl_div_int s 0)"
  by (cases s) simp_all

lemma np_sum_finite_aux:
  "\<forall>x\<in>set xs. is_finite x \<Longrightarrow> is_finite (foldl fl_add (Fin a) xs)"
proof (induction xs arbitrary: a)
  case Nil
  show ?case by simp
next
  case (Cons x xs)
  then obtain b where "x = Fin b" by (cases x) simp_all
  with Cons show ?case by simp
qed

lemma chi2_terms_finite:
  "\<forall>p\<in>set y_pred. is_finite p \<Longrightarrow> \<forall>x\<in>set (chi2_terms y_pred y). is_finite x"
proof
  fix x assume fin: "\<forall>p\<in>set y_pred. is_finite p" and "x \<in> set (chi2_terms y_pred y)"
  then obtain p v where pv: "(p, v) \<in> set (zip y_pred y)" "x = chi2_term p v"
    by (auto simp: chi2_terms_def)
  then have "p \<in> set y_pred" by (meson set_zip_leftD)
  with fin obtain r where "p = Fin r" by (cases p) auto
  with pv show "is_finite x" by simp
qed

lemma fl_div_int_finite: "is_finite s \<Longrightarrow> d \<noteq> 0 \<Longrightarrow> is_finite (fl_div_int s d)"
  by (cases s) simp_all

text \<open>
  Claim C10. The reduced chi-square divides the summed chi-square by the number of
  strictly positive observed counts minus one. With exactly one positive count that
  divisor is zero and the result is not a finite number; with no positive count the
  divisor is negative; with finite predictions and at least two positive counts the
  divisor is positive and the result is finite. So a finite reduced chi-square over a
  positive divisor needs at least two strictly positive observed counts.
\<close>

theorem reduced_chi2_needs_two_positive_counts:
  assumes "length y_pred = length y"
  shows "reduced_chi2 y_pred y =
           Inr (fl_div_int (np_sum (chi2_terms y_pred y)) (int (positive_counts y) - 1)) \<and>
         (positive_counts y = 1 \<longrightarrow>
            int (positive_counts y) - 1 = 0 \<and>
            (\<exists>r. reduced_chi2 y_pred y = Inr r \<and> \<not> is_finite r)) \<and>
         (positive_counts y = 0 \<longrightarrow> int (positive_counts y) - 1 < 0) \<and>
         (2 \<le> positive_counts y \<and> (\<forall>p\<in>set y_pred. is_finite p) \<longrightarrow>
            0 < int (positive_counts y) - 1 \<and>
            (\<exists>r. reduced_chi2 y_pred y = Inr r \<and> is_finite r))"
proof -
  have eq: "reduced_chi2 y_pred y =
           Inr (fl_div_int (np_sum (chi2_terms y_pred y)) (int (positive_counts y) - 1))"
    using assms by (simp add: reduced_chi2_def Let_def length_chi2_terms)
  have one: "positive_counts y = 1 \<longrightarrow>
           int (positive_counts y) - 1 = 0 \<and>
           (\<exists>r. reduced_chi2 y_pred y = Inr r \<and> \<not> is_finite r)"
    using eq by (simp add: fl_div_int_zero_not_finite)
  have two: "2 \<le> positive_counts y \<and> (\<forall>p\<in>set y_pred. is_finite p) \<longrightarrow>
            0 < int (positive_counts y) - 1 \<and>
            (\<exists>r. reduced_chi2 y_pred y = Inr r \<and> is_finite r)"
  proof
    assume h: "2 \<le> positive_counts y \<and> (\<forall>p\<in>set y_pred. is_finite p)"
    then have "is_finite (np_sum (chi2_terms y_pred y))"
      unfolding np_sum_def by (intro np_sum_finite_aux chi2_terms_finite) simp
    moreover have "int (positive_counts y) - 1 \<noteq> 0" using h by simp
    ultimately have "is_finite (fl_div_int (np_sum (chi2_terms y_pred y)) (int (positive_counts y) - 1))"
      by (rule fl_div_int_finite)
    with eq h show "0 < int (positive_counts y) - 1 \<and>
            (\<exists>r. reduced_chi2 y_pred y = Inr r \<and> is_finite r)" by simp
  qed
  show ?thesis using eq one two by simp
qed

theorem reduced_chi2_needs_two_positive_counts_witness:
  "reduced_chi2 [Fin 1, Fin 2] [3, 0] = Inr PInf \<and> positive_counts [3, 0] = 1"
  using reduced_chi2_needs_two_positive_counts [of "[Fin 1, Fin 2]" "[3, 0]"]
  by (simp add: positive_counts_def chi2_terms_def np_sum_def)

section \<open>Properties of the surge window\<close>

lemma argwhere_empty: "argwhere bs = [] \<longleftrightarrow> (\<forall>i<length bs. \<not> bs ! i)"
  by (auto simp: argwhere_def filter_empty_conv)

lemma argwhere_first:
  assumes "i < length bs" "bs ! i" "\<forall>j<i. \<not> bs ! j"
  shows "argwhere bs = i # filter (\<lambda>k. bs ! k) [Suc i..<length bs]"
proof -
  have split: "[0..<length bs] = [0..<i] @ i # [Suc i..<length bs]"
    using assms(1) by (metis upt_conv_Cons upt_add_eq_append le0 le_add_diff_inverse less_imp_le)
  have "filter (\<lambda>k. bs ! k) [0..<i] = []"
    using assms(3) by (simp add: filter_empty_conv)
  then show ?thesis
    unfolding argwhere_def by (subst split) (simp add: assms(2))
qed

lemma first_time_over_none:
  assumes "\<forall>i<length series. \<not> fl_gt (series ! i) cap"
  shows "first_time_over ts series cap = Inr NaN"
proof -
  have "argwhere (map (\<lambda>v. fl_gt v cap) series) = []"
    using assms by (simp add: argwhere_empty)
  then show ?thesis by (simp add: first_time_over_def)
qed

lemma first_time_over_first:
  assumes "i < length series" "fl_gt (series ! i) cap"
    and "\<forall>j<i. \<not> fl_gt (series ! j) cap" and "length ts = length series"
  shows "first_time_over ts series cap = Inr (Fin (ts ! i))"
proof -
  let ?bs = "map (\<lambda>v. fl_gt v cap) series"
  have "\<forall>j<i. \<not> ?bs ! j" using assms(1,3) by simp
  then have "argwhere ?bs = i # filter (\<lambda>k. ?bs ! k) [Suc i..<length ?bs]"
    using assms(1,2) by (intro argwhere_first) simp_all
  then show ?thesis
    using assms(1,4) by (simp add: first_time_over_def np_index_def)
qed

lemma first_time_over_rev_last:
  assumes "i < length series" "fl_gt (series ! i) cap"
    and "\<forall>j. i < j \<and> j < length series \<longrightarrow> \<not> fl_gt (series ! j) cap"
    and "length ts = length series"
  shows "first_time_over (rev ts) (rev series) cap = Inr (Fin (ts ! i))"
proof -
  let ?n = "length series"
  let ?k = "?n - Suc i"
  have k: "?k < length (rev series)" using assms(1) by simp
  have at_k: "rev series ! ?k = series ! i"
    using assms(1) by (simp add: rev_nth)
  have before: "\<forall>j<?k. \<not> fl_gt (rev series ! j) cap"
  proof (intro allI impI)
    fix j assume j: "j < ?k"
    then have "rev series ! j = series ! (?n - Suc j)" by (simp add: rev_nth)
    moreover have "i < ?n - Suc j" "?n - Suc j < ?n" using j assms(1) by linarith+
    ultimately show "\<not> fl_gt (rev series ! j) cap" using assms(3) by simp
  qed
  have "first_time_over (rev ts) (rev series) cap = Inr (Fin (rev ts ! ?k))"
    using k at_k before assms(2,4) by (intro first_time_over_first) simp_all
  moreover have "rev ts ! ?k = ts ! i"
    using assms(1,4) by (simp add: rev_nth)
  ultimately show ?thesis by simp
qed

lemma capacity_of_bound:
  assumes "map_of compartment_to_capacity_attr_map c = Some a"
  shows "\<exists>cap. capacity_of m c = Inr cap"
  using assms
  by (auto simp: capacity_of_def compartment_to_capacity_attr_map_def getattr_def split: if_splits)


lemma first_time_over_least:
  assumes "i < length series" "fl_gt (series ! i) cap" "length ts = length series"
  shows "\<exists>i0\<le>i. fl_gt (series ! i0) cap \<and> (\<forall>j<i0. \<not> fl_gt (series ! j) cap) \<and>
           first_time_over ts series cap = Inr (Fin (ts ! i0))"
proof -
  define i0 where "i0 = (LEAST k. fl_gt (series ! k) cap)"
  have over: "fl_gt (series ! i0) cap"
    unfolding i0_def using assms(2) by (rule LeastI)
  have le: "i0 \<le> i"
    unfolding i0_def using assms(2) by (rule Least_le)
  have before: "\<forall>j<i0. \<not> fl_gt (series ! j) cap"
    unfolding i0_def using not_less_Least by blast
  have "first_time_over ts series cap = Inr (Fin (ts ! i0))"
    using le assms(1,3) over before by (intro first_time_over_first) simp_all
  then show ?thesis using le over before by blast
qed

lemma first_time_over_rev_greatest:
  assumes "i < length series" "fl_gt (series ! i) cap" "length ts = length series"
  shows "\<exists>i1\<ge>i. i1 < length series \<and> fl_gt (series ! i1) cap \<and>
           (\<forall>j. i1 < j \<and> j < length series \<longrightarrow> \<not> fl_gt (series ! j) cap) \<and>
           first_time_over (rev ts) (rev series) cap = Inr (Fin (ts ! i1))"
proof -
  let ?P = "\<lambda>k. k < length series \<and> fl_gt (series ! k) cap"
  define i1 where "i1 = (GREATEST k. ?P k)"
  have bound: "\<forall>k. ?P k \<longrightarrow> k \<le> length series" by simp
  have P: "?P i1"
    unfolding i1_def using assms(1,2) by (intro GreatestI_nat[where P="?P" and b="length series"]) auto
  have ge: "i \<le> i1"
    unfolding i1_def using assms(1,2) by (intro Greatest_le_nat[where P="?P" and b="length series"]) auto
  have after: "\<forall>j. i1 < j \<and> j < length series \<longrightarrow> \<not> fl_gt (series ! j) cap"
  proof (intro allI impI notI)
    fix j assume j: "i1 < j \<and> j < length series" and "fl_gt (series ! j) cap"
    then have "?P j" by simp
    then have "j \<le> i1"
      unfolding i1_def by (intro Greatest_le_nat[where P="?P" and b="length series"]) auto
    with j show False by simp
  qed
  have "first_time_over (rev ts) (rev series) cap = Inr (Fin (ts ! i1))"
    using P after assms(3) by (intro first_time_over_rev_last) simp_all
  then show ?thesis using P ge after by blast
qed


lemma first_time_over_total:
  assumes "length ts = length series"
  shows "\<exists>v. first_time_over ts series cap = Inr v"
proof (cases "\<exists>i<length series. fl_gt (series ! i) cap")
  case True
  then show ?thesis using first_time_over_least[OF _ _ assms] by blast
next
  case False
  then show ?thesis using first_time_over_none by blast
qed

lemma surge_window_of_Inr:
  assumes "map_of (results m) c = Some series" "capacity_of m c = Inr cap"
    and "length (t_list m) = length series"
  shows "\<exists>s e. surge_window_of m c = Inr (s, e) \<and>
           first_time_over (t_list m) series cap = Inr s \<and>
           first_time_over (rev (t_list m)) (rev series) cap = Inr e"
proof -
  obtain s where s: "first_time_over (t_list m) series cap = Inr s"
    using first_time_over_total[OF assms(3)] by blast
  have "length (rev (t_list m)) = length (rev series)" using assms(3) by simp
  then obtain e where e: "first_time_over (rev (t_list m)) (rev series) cap = Inr e"
    using first_time_over_total by blast
  show ?thesis using assms(1,2) s e by (simp add: surge_window_of_def)
qed

lemma get_surge_window_nth:
  "get_surge_window ms c = Inr (ss, es) \<Longrightarrow>
     length ss = length ms \<and> length es = length ms \<and>
     (\<forall>k<length ms. surge_window_of (ms ! k) c = Inr (ss ! k, es ! k))"
proof (induction ms arbitrary: ss es)
  case Nil
  then show ?case by simp
next
  case (Cons m ms)
  from Cons.prems obtain s e ss' es' where
    w: "surge_window_of m c = Inr (s, e)" and
    r: "get_surge_window ms c = Inr (ss', es')" and
    eq: "ss = s # ss'" "es = e # es'"
    by (auto split: sum.splits prod.splits)
  from Cons.IH[OF r] w eq show ?case
    by (auto simp: nth_Cons split: nat.splits)
qed

lemma get_surge_window_total:
  "\<forall>m\<in>set ms. \<exists>w. surge_window_of m c = Inr w \<Longrightarrow>
     \<exists>ss es. get_surge_window ms c = Inr (ss, es)"
proof (induction ms)
  case Nil
  then show ?case by simp
next
  case (Cons m ms)
  then obtain s e where w: "surge_window_of m c = Inr (s, e)" by fastforce
  from Cons obtain ss es where "get_surge_window ms c = Inr (ss, es)" by auto
  with w show ?case by simp
qed

text \<open>
  Claim C4. For every run of an ensemble and every capacity-bound compartment, when the
  run's time grid is as long as its series, the surge start is the time-grid value at the
  first index where the series is strictly above the run's capacity constant, the surge
  end is the time-grid value at the last such index, both are NaN when no value is above
  the capacity, and with exactly one value above the capacity both are that timestep's
  time value.
\<close>

theorem surge_window_earliest_and_latest:
  assumes bound: "map_of compartment_to_capacity_attr_map c = Some a"
    and runs: "\<forall>m\<in>set ms. \<exists>series. map_of (results m) c = Some series \<and>
                 length (t_list m) = length series"
  shows "\<exists>surge_start surge_end.
           get_surge_window ms c = Inr (surge_start, surge_end) \<and>
           length surge_start = length ms \<and> length surge_end = length ms \<and>
           (\<forall>k<length ms. \<forall>series cap.
              map_of (results (ms ! k)) c = Some series \<and> capacity_of (ms ! k) c = Inr cap \<longrightarrow>
                ((\<forall>i<length series. \<not> fl_gt (series ! i) cap) \<longrightarrow>
                   surge_start ! k = NaN \<and> surge_end ! k = NaN) \<and>
                (\<forall>i<length series.
                   fl_gt (series ! i) cap \<and> (\<forall>j<i. \<not> fl_gt (series ! j) cap) \<longrightarrow>
                   surge_start ! k = Fin (t_list (ms ! k) ! i)) \<and>
                (\<forall>i<length series.
                   fl_gt (series ! i) cap \<and>
                   (\<forall>j. i < j \<and> j < length series \<longrightarrow> \<not> fl_gt (series ! j) cap) \<longrightarrow>
                   surge_end ! k = Fin (t_list (ms ! k) ! i)) \<and>
                (\<forall>i<length series.
                   fl_gt (series ! i) cap \<and>
                   (\<forall>j<length series. j \<noteq> i \<longrightarrow> \<not> fl_gt (series ! j) cap) \<longrightarrow>
                   surge_start ! k = Fin (t_list (ms ! k) ! i) \<and>
                   surge_end ! k = Fin (t_list (ms ! k) ! i)))"
proof -
  have each: "\<forall>m\<in>set ms. \<exists>w. surge_window_of m c = Inr w"
  proof
    fix m assume "m \<in> set ms"
    with runs obtain series where
      s: "map_of (results m) c = Some series" "length (t_list m) = length series" by blast
    obtain cap where "capacity_of m c = Inr cap" using capacity_of_bound[OF bound] by blast
    with s show "\<exists>w. surge_window_of m c = Inr w"
      using surge_window_of_Inr by blast
  qed
  then obtain ss es where res: "get_surge_window ms c = Inr (ss, es)"
    using get_surge_window_total by blast
  note nth = get_surge_window_nth[OF res]
  have "\<forall>k<length ms. \<forall>series cap.
          map_of (results (ms ! k)) c = Some series \<and> capacity_of (ms ! k) c = Inr cap \<longrightarrow>
            ((\<forall>i<length series. \<not> fl_gt (series ! i) cap) \<longrightarrow> ss ! k = NaN \<and> es ! k = NaN) \<and>
            (\<forall>i<length series.
               fl_gt (series ! i) cap \<and> (\<forall>j<i. \<not> fl_gt (series ! j) cap) \<longrightarrow>
               ss ! k = Fin (t_list (ms ! k) ! i)) \<and>
            (\<forall>i<length series.
               fl_gt (series ! i) cap \<and>
               (\<forall>j. i < j \<and> j < length series \<longrightarrow> \<not> fl_gt (series ! j) cap) \<longrightarrow>
               es ! k = Fin (t_list (ms ! k) ! i)) \<and>
            (\<forall>i<length series.
               fl_gt (series ! i) cap \<and>
               (\<forall>j<length series. j \<noteq> i \<longrightarrow> \<not> fl_gt (series ! j) cap) \<longrightarrow>
               ss ! k = Fin (t_list (ms ! k) ! i) \<and> es ! k = Fin (t_list (ms ! k) ! i))"
  proof (intro allI impI)
    fix k series cap
    assume k: "k < length ms"
      and h: "map_of (results (ms ! k)) c = Some series \<and> capacity_of (ms ! k) c = Inr cap"
    let ?m = "ms ! k"
    have mem: "?m \<in> set ms" using k by simp
    with runs h have len: "length (t_list ?m) = length series" by fastforce
    have w: "surge_window_of ?m c = Inr (ss ! k, es ! k)" using nth k by blast
    obtain s e where se: "surge_window_of ?m c = Inr (s, e)"
      "first_time_over (t_list ?m) series cap = Inr s"
      "first_time_over (rev (t_list ?m)) (rev series) cap = Inr e"
      using surge_window_of_Inr[of ?m c series cap] h len by blast
    with w have start: "first_time_over (t_list ?m) series cap = Inr (ss ! k)"
      and stop: "first_time_over (rev (t_list ?m)) (rev series) cap = Inr (es ! k)" by simp_all
    have none: "(\<forall>i<length series. \<not> fl_gt (series ! i) cap) \<longrightarrow> ss ! k = NaN \<and> es ! k = NaN"
    proof
      assume no: "\<forall>i<length series. \<not> fl_gt (series ! i) cap"
      then have "\<forall>i<length (rev series). \<not> fl_gt (rev series ! i) cap"
        by (simp add: rev_nth)
      then show "ss ! k = NaN \<and> es ! k = NaN"
        using no start stop first_time_over_none[of series cap "t_list ?m"]
          first_time_over_none[of "rev series" cap "rev (t_list ?m)"] by simp
    qed
    have first: "\<forall>i<length series.
               fl_gt (series ! i) cap \<and> (\<forall>j<i. \<not> fl_gt (series ! j) cap) \<longrightarrow>
               ss ! k = Fin (t_list ?m ! i)"
      using start len first_time_over_first[of _ series cap "t_list ?m"] by fastforce
    have last: "\<forall>i<length series.
               fl_gt (series ! i) cap \<and>
               (\<forall>j. i < j \<and> j < length series \<longrightarrow> \<not> fl_gt (series ! j) cap) \<longrightarrow>
               es ! k = Fin (t_list ?m ! i)"
      using stop len first_time_over_rev_last[of _ series cap "t_list ?m"] by fastforce
    have one: "\<forall>i<length series.
               fl_gt (series ! i) cap \<and>
               (\<forall>j<length series. j \<noteq> i \<longrightarrow> \<not> fl_gt (series ! j) cap) \<longrightarrow>
               ss ! k = Fin (t_list ?m ! i) \<and> es ! k = Fin (t_list ?m ! i)"
    proof (intro allI impI)
      fix i assume i: "i < length series"
        and u: "fl_gt (series ! i) cap \<and> (\<forall>j<length series. j \<noteq> i \<longrightarrow> \<not> fl_gt (series ! j) cap)"
      have b: "\<forall>j<i. \<not> fl_gt (series ! j) cap" using i u by simp
      have a: "\<forall>j. i < j \<and> j < length series \<longrightarrow> \<not> fl_gt (series ! j) cap" using u by simp
      show "ss ! k = Fin (t_list ?m ! i) \<and> es ! k = Fin (t_list ?m ! i)"
        using first last i u a b by blast
    qed
    show "((\<forall>i<length series. \<not> fl_gt (series ! i) cap) \<longrightarrow> ss ! k = NaN \<and> es ! k = NaN) \<and>
            (\<forall>i<length series.
               fl_gt (series ! i) cap \<and> (\<forall>j<i. \<not> fl_gt (series ! j) cap) \<longrightarrow>
               ss ! k = Fin (t_list (ms ! k) ! i)) \<and>
            (\<forall>i<length series.
               fl_gt (series ! i) cap \<and>
               (\<forall>j. i < j \<and> j < length series \<longrightarrow> \<not> fl_gt (series ! j) cap) \<longrightarrow>
               es ! k = Fin (t_list (ms ! k) ! i)) \<and>
            (\<forall>i<length series.
               fl_gt (series ! i) cap \<and>
               (\<forall>j<length series. j \<noteq> i \<longrightarrow> \<not> fl_gt (series ! j) cap) \<longrightarrow>
               ss ! k = Fin (t_list (ms ! k) ! i) \<and> es ! k = Fin (t_list (ms ! k) ! i))"
      using none first last one by blast
  qed
  with res nth show ?thesis by blast
qed


theorem surge_window_earliest_and_latest_witness:
  "\<exists>surge_start surge_end.
     get_surge_window
       [\<lparr>results = [(''HGen'', [1, 3, 1])], t_list = [0, 1, 2],
         beds_general = Fin 2, beds_ICU = Fin 0, ventilators = Fin 0\<rparr>] ''HGen''
       = Inr (surge_start, surge_end) \<and>
     surge_start ! 0 = Fin 1 \<and> surge_end ! 0 = Fin 1"
proof -
  define m where "m = \<lparr>results = [(''HGen'', [1, 3, 1])], t_list = [0, 1, 2],
         beds_general = Fin 2, beds_ICU = Fin 0, ventilators = Fin 0\<rparr>"
  have bound: "map_of compartment_to_capacity_attr_map ''HGen'' = Some ''beds_general''"
    by (simp add: compartment_to_capacity_attr_map_def)
  have runs: "\<forall>r\<in>set [m]. \<exists>series. map_of (results r) ''HGen'' = Some series \<and>
                 length (t_list r) = length series"
    by (simp add: m_def)
  have series: "map_of (results ([m] ! 0)) ''HGen'' = Some [1, 3, 1]"
    by (simp add: m_def)
  have cap: "capacity_of ([m] ! 0) ''HGen'' = Inr (Fin 2)"
    by (simp add: m_def capacity_of_def compartment_to_capacity_attr_map_def getattr_def)
  have only: "fl_gt ([1, 3, 1] ! 1) (Fin 2) \<and>
      (\<forall>j<length [1, 3, 1::real]. j \<noteq> 1 \<longrightarrow> \<not> fl_gt ([1, 3, 1] ! j) (Fin 2))"
    by (simp add: less_Suc_eq nth_Cons')
  from surge_window_earliest_and_latest [OF bound runs]
  obtain ss es where res: "get_surge_window [m] ''HGen'' = Inr (ss, es)"
    and all: "\<forall>k<length [m]. \<forall>series cap.
              map_of (results ([m] ! k)) ''HGen'' = Some series \<and>
              capacity_of ([m] ! k) ''HGen'' = Inr cap \<longrightarrow>
                ((\<forall>i<length series. \<not> fl_gt (series ! i) cap) \<longrightarrow>
                   ss ! k = NaN \<and> es ! k = NaN) \<and>
                (\<forall>i<length series.
                   fl_gt (series ! i) cap \<and> (\<forall>j<i. \<not> fl_gt (series ! j) cap) \<longrightarrow>
                   ss ! k = Fin (t_list ([m] ! k) ! i)) \<and>
                (\<forall>i<length series.
                   fl_gt (series ! i) cap \<and>
                   (\<forall>j. i < j \<and> j < length series \<longrightarrow> \<not> fl_gt (series ! j) cap) \<longrightarrow>
                   es ! k = Fin (t_list ([m] ! k) ! i)) \<and>
                (\<forall>i<length series.
                   fl_gt (series ! i) cap \<and>
                   (\<forall>j<length series. j \<noteq> i \<longrightarrow> \<not> fl_gt (series ! j) cap) \<longrightarrow>
                   ss ! k = Fin (t_list ([m] ! k) ! i) \<and>
                   es ! k = Fin (t_list ([m] ! k) ! i))"
    by (elim exE conjE)
  have k: "0 < length [m]" by simp
  from all[rule_format, OF k, OF conjI[OF series cap]]
  have "\<forall>i<length [1, 3, 1::real].
                   fl_gt ([1, 3, 1] ! i) (Fin 2) \<and>
                   (\<forall>j<length [1, 3, 1::real]. j \<noteq> i \<longrightarrow> \<not> fl_gt ([1, 3, 1] ! j) (Fin 2)) \<longrightarrow>
                   ss ! 0 = Fin (t_list ([m] ! 0) ! i) \<and>
                   es ! 0 = Fin (t_list ([m] ! 0) ! i)"
    by (elim conjE)
  from this[rule_format, of 1, OF _ only]
  have "ss ! 0 = Fin 1 \<and> es ! 0 = Fin 1" by (simp add: m_def)
  with res have "get_surge_window [m] ''HGen'' = Inr (ss, es) \<and>
      ss ! 0 = Fin 1 \<and> es ! 0 = Fin 1" by simp
  then show ?thesis unfolding m_def by (intro exI)
qed

section \<open>Properties of the percentile bands\<close>











lemmas aggregator_eval =
  generate_output_for_suppression_policy_def generate_compartment_arrays_def
  compartment_keys_def
  compartment_step_def surge_output_def detect_peak_time_and_value_def np_argmax_def py_index_def
  np_mean_def dict_update_def np_percentile_def np_percentile_axis0_def columns_def
  percentile_linear_def lerp_at_def np_vstack_def fmt_i_def digit_char_def sublist_code
  compartment_to_capacity_attr_map_def capacity_of_def getattr_def surge_window_of_def
  first_time_over_def argwhere_def np_index_def Let_def



section \<open>Properties of the stacking and of the scenario output\<close>

lemma append_run_char:
  "append_run m comps =
     (if \<forall>k\<in>fst ` set comps. map_of (results m) k \<noteq> None
      then Inr (map (\<lambda>(k, vs). (k, vs @ [the (map_of (results m) k)])) comps)
      else Inl KeyError)"
proof (induction comps)
  case Nil
  show ?case by simp
next
  case (Cons c comps)
  obtain key vs where c: "c = (key, vs)" by (cases c)
  show ?case
  proof (cases "map_of (results m) key")
    case None
    then show ?thesis using c by auto
  next
    case (Some series)
    show ?thesis
    proof (cases "\<forall>k\<in>fst ` set comps. map_of (results m) k \<noteq> None")
      case True
      then show ?thesis using c Some Cons.IH by simp
    next
      case False
      then show ?thesis using c Some Cons.IH by simp
    qed
  qed
qed

lemma stack_runs_char:
  "stack_runs ms comps =
     (if \<forall>m\<in>set ms. \<forall>k\<in>fst ` set comps. map_of (results m) k \<noteq> None
      then Inr (map (\<lambda>(k, vs). (k, vs @ map (\<lambda>m. the (map_of (results m) k)) ms)) comps)
      else Inl KeyError)"
proof (induction ms arbitrary: comps)
  case Nil
  show ?case by (simp add: case_prod_beta)
next
  case (Cons m ms)
  let ?c = "map (\<lambda>(k, vs). (k, vs @ [the (map_of (results m) k)])) comps"
  have keys: "fst ` set ?c = fst ` set comps" by (force simp: image_iff)
  show ?case
  proof (cases "\<forall>k\<in>fst ` set comps. map_of (results m) k \<noteq> None")
    case True
    then have "stack_runs (m # ms) comps = stack_runs ms ?c"
      by (simp add: append_run_char)
    also have "\<dots> = (if \<forall>m\<in>set ms. \<forall>k\<in>fst ` set comps. map_of (results m) k \<noteq> None
      then Inr (map (\<lambda>(k, vs). (k, vs @ map (\<lambda>m. the (map_of (results m) k)) ms)) ?c)
      else Inl KeyError)"
      unfolding Cons.IH keys by simp
    finally show ?thesis using True by (simp add: case_prod_beta comp_def)
  next
    case False
    then show ?thesis by (auto simp: append_run_char)
  qed
qed

lemma np_vstack_char: "np_vstack rows = (if vstack_ok rows then Inr rows else Inl ValueError)"
  by (cases rows) (auto simp: np_vstack_def vstack_ok_def)

lemma vstack_all_char:
  "vstack_all comps =
     (if \<forall>vs\<in>snd ` set comps. vstack_ok vs then Inr comps else Inl ValueError)"
proof (induction comps)
  case Nil
  show ?case by simp
next
  case (Cons c comps)
  obtain key vs where c: "c = (key, vs)" by (cases c)
  show ?case
  proof (cases "vstack_ok vs")
    case False
    then show ?thesis using c by (simp add: np_vstack_char)
  next
    case True
    show ?thesis
    proof (cases "\<forall>vs\<in>snd ` set comps. vstack_ok vs")
      case True
      then show ?thesis using c \<open>vstack_ok vs\<close> Cons.IH by (simp add: np_vstack_char)
    next
      case False
      then show ?thesis using c \<open>vstack_ok vs\<close> Cons.IH by (simp add: np_vstack_char)
    qed
  qed
qed

lemma generate_compartment_arrays_char:
  "generate_compartment_arrays (m0 # rest) =
     (if \<exists>m\<in>set (m0 # rest). \<exists>k\<in>set (compartment_keys m0). map_of (results m) k = None
      then Inl KeyError
      else if \<exists>m\<in>set (m0 # rest). \<exists>k\<in>set (compartment_keys m0).
                length (the (map_of (results m) k)) \<noteq> length (the (map_of (results m0) k))
      then Inl ValueError
      else Inr (map (\<lambda>k. (k, map (\<lambda>m. the (map_of (results m) k)) (m0 # rest)))
                  (compartment_keys m0)))"
proof -
  let ?ms = "m0 # rest"
  let ?keys = "compartment_keys m0"
  let ?comps = "map (\<lambda>key. (key, [])) ?keys :: (string \<times> real list list) list"
  let ?stacked = "map (\<lambda>k. (k, map (\<lambda>m. the (map_of (results m) k)) ?ms)) ?keys"
  have fst: "fst ` set ?comps = set ?keys" by force
  have st: "map (\<lambda>(k, vs). (k, vs @ map (\<lambda>m. the (map_of (results m) k)) ?ms)) ?comps = ?stacked"
    by simp
  have ok: "(\<forall>vs\<in>snd ` set ?stacked. vstack_ok vs) \<longleftrightarrow>
     \<not> (\<exists>m\<in>set ?ms. \<exists>k\<in>set ?keys.
                length (the (map_of (results m) k)) \<noteq> length (the (map_of (results m0) k)))"
    by (auto simp: vstack_ok_def image_iff)
  show ?thesis
  proof (cases "\<exists>m\<in>set ?ms. \<exists>k\<in>set ?keys. map_of (results m) k = None")
    case True
    then have "stack_runs ?ms ?comps = Inl KeyError"
      unfolding stack_runs_char fst by auto
    then show ?thesis using True by (simp add: generate_compartment_arrays_def)
  next
    case False
    then have "stack_runs ?ms ?comps = Inr ?stacked"
      unfolding stack_runs_char fst st by auto
    then have "generate_compartment_arrays ?ms = vstack_all ?stacked"
      by (simp add: generate_compartment_arrays_def)
    then show ?thesis using False ok unfolding vstack_all_char by auto
  qed
qed

text \<open>
  Claim C1. The scenario output of a capacity-bound compartment is claimed to hold the
  per-run surge starts under \<open>surge_start\<close> and the per-run surge ends under \<open>surge_end\<close>.
  The code assigns both parts of the surge window to the key \<open>surge_start\<close>: for one run
  with series \<open>[1,3,4,1]\<close> on the grid \<open>[0,1,2,3]\<close> and capacity 2 the surge window is
  start 1, end 2, and the output holds the end list \<open>[2]\<close> under \<open>surge_start\<close> and has no
  key \<open>surge_end\<close>.
\<close>

theorem surge_end_overwrites_surge_start:
  "get_surge_window
     [\<lparr>results = [(''HGen'', [1, 3, 4, 1])], t_list = [0, 1, 2, 3],
       beds_general = Fin 2, beds_ICU = Fin 0, ventilators = Fin 0\<rparr>] ''HGen''
     = Inr ([Fin 1], [Fin 2]) \<and>
   generate_output_for_suppression_policy [50]
     [\<lparr>results = [(''HGen'', [1, 3, 4, 1])], t_list = [0, 1, 2, 3],
       beds_general = Fin 2, beds_ICU = Fin 0, ventilators = Fin 0\<rparr>]
     = Inr [(''t_list'', OList [0, 1, 2, 3]),
            (''HGen'', ODict [(''ci_50'', JList [Fin 1, Fin 3, Fin 4, Fin 1]),
                              (''surge_start'', JList [Fin 2]),
                              (''capacity'', JList [Fin 2]),
                              (''peak_value_ci50'', JNum (Fin 4)),
                              (''peak_time_ci50'', JNum (Fin 2)),
                              (''peak_value_mean'', JNum (Fin 4))])]"
  by (simp add: aggregator_eval)

text \<open>
  Claim C8, as stated, fails: a run whose key set differs from the first run's by an extra
  compartment (here \<open>D\<close>, whose series also has another length) is aggregated without any
  error, and the extra compartment is left out of the output.
\<close>

theorem aggregation_ignores_extra_keys_counterexample:
  "set (map fst (results \<lparr>results = [(''I'', [1, 2])], t_list = [0, 1],
          beds_general = Fin 0, beds_ICU = Fin 0, ventilators = Fin 0\<rparr>))
     \<noteq> set (map fst (results \<lparr>results = [(''I'', [3, 4]), (''D'', [0, 0, 1])], t_list = [0, 1],
          beds_general = Fin 0, beds_ICU = Fin 0, ventilators = Fin 0\<rparr>)) \<and>
   generate_output_for_suppression_policy [50]
     [\<lparr>results = [(''I'', [1, 2])], t_list = [0, 1],
       beds_general = Fin 0, beds_ICU = Fin 0, ventilators = Fin 0\<rparr>,
      \<lparr>results = [(''I'', [3, 4]), (''D'', [0, 0, 1])], t_list = [0, 1],
       beds_general = Fin 0, beds_ICU = Fin 0, ventilators = Fin 0\<rparr>]
     = Inr [(''t_list'', OList [0, 1]),
            (''I'', ODict [(''ci_50'', JList [Fin 2, Fin 3]),
                           (''peak_value_ci50'', JNum (Fin 3)),
                           (''peak_time_ci50'', JNum (Fin 1)),
                           (''peak_value_mean'', JNum (Fin 3))])]"
  by (simp add: aggregator_eval)

lemma generate_output_propagates:
  "generate_compartment_arrays (m0 # rest) = Inl e \<Longrightarrow>
     generate_output_for_suppression_policy ps (m0 # rest) = Inl e"
  by (simp add: generate_output_for_suppression_policy_def)

text \<open>
  Claim C8, amended. The compartments that are stacked are the keys of the first run.
  Aggregation of a scenario raises KeyError when some run lacks one of these keys, and
  ValueError when all runs have them but, for one of them, some run's series length
  differs from the first run's.
\<close>

theorem aggregation_raises_on_missing_key_or_length:
  assumes "model_ensemble = m0 # rest"
  shows "((\<exists>m\<in>set model_ensemble. \<exists>key\<in>set (compartment_keys m0).
             map_of (results m) key = None) \<longrightarrow>
            generate_compartment_arrays model_ensemble = Inl KeyError \<and>
            generate_output_for_suppression_policy output_percentiles model_ensemble = Inl KeyError) \<and>
         ((\<forall>m\<in>set model_ensemble. \<forall>key\<in>set (compartment_keys m0).
             map_of (results m) key \<noteq> None) \<and>
          (\<exists>m\<in>set model_ensemble. \<exists>key\<in>set (compartment_keys m0).
             \<exists>series series0. map_of (results m) key = Some series \<and>
               map_of (results m0) key = Some series0 \<and> length series \<noteq> length series0) \<longrightarrow>
            generate_compartment_arrays model_ensemble = Inl ValueError \<and>
            generate_output_for_suppression_policy output_percentiles model_ensemble = Inl ValueError)"
proof (intro conjI impI)
  assume "\<exists>m\<in>set model_ensemble. \<exists>key\<in>set (compartment_keys m0). map_of (results m) key = None"
  then show "generate_compartment_arrays model_ensemble = Inl KeyError"
    unfolding assms generate_compartment_arrays_char by simp
  then show "generate_output_for_suppression_policy output_percentiles model_ensemble = Inl KeyError"
    unfolding assms by (rule generate_output_propagates)
next
  assume h: "(\<forall>m\<in>set model_ensemble. \<forall>key\<in>set (compartment_keys m0).
             map_of (results m) key \<noteq> None) \<and>
          (\<exists>m\<in>set model_ensemble. \<exists>key\<in>set (compartment_keys m0).
             \<exists>series series0. map_of (results m) key = Some series \<and>
               map_of (results m0) key = Some series0 \<and> length series \<noteq> length series0)"
  then have present: "\<not> (\<exists>m\<in>set (m0 # rest). \<exists>k\<in>set (compartment_keys m0). map_of (results m) k = None)"
    unfolding assms by blast
  from h obtain m key series series0 where
    "m \<in> set (m0 # rest)" "key \<in> set (compartment_keys m0)"
    "map_of (results m) key = Some series" "map_of (results m0) key = Some series0"
    "length series \<noteq> length series0"
    unfolding assms by blast
  then have differ: "\<exists>m\<in>set (m0 # rest). \<exists>k\<in>set (compartment_keys m0).
                length (the (map_of (results m) k)) \<noteq> length (the (map_of (results m0) k))"
    by force
  show e: "generate_compartment_arrays model_ensemble = Inl ValueError"
    unfolding assms generate_compartment_arrays_char using present differ by simp
  show "generate_output_for_suppression_policy output_percentiles model_ensemble = Inl ValueError"
    using e unfolding assms by (rule generate_output_propagates)
qed

theorem aggregation_raises_on_missing_key_or_length_witness:
  "generate_output_for_suppression_policy [50]
     [\<lparr>results = [(''I'', [1, 2])], t_list = [0, 1],
       beds_general = Fin 0, beds_ICU = Fin 0, ventilators = Fin 0\<rparr>,
      \<lparr>results = [(''I'', [3])], t_list = [0, 1],
       beds_general = Fin 0, beds_ICU = Fin 0, ventilators = Fin 0\<rparr>] = Inl ValueError"
proof -
  define m0 where "m0 = \<lparr>results = [(''I'', [1, 2])], t_list = [0, 1],
       beds_general = Fin 0, beds_ICU = Fin 0, ventilators = Fin 0\<rparr>"
  define m1 where "m1 = \<lparr>results = [(''I'', [3])], t_list = [0, 1],
       beds_general = Fin 0, beds_ICU = Fin 0, ventilators = Fin 0\<rparr>"
  have keys: "compartment_keys m0 = [''I'']"
    by (simp add: compartment_keys_def m0_def sublist_code)
  have h: "(\<forall>m\<in>set [m0, m1]. \<forall>key\<in>set (compartment_keys m0).
             map_of (results m) key \<noteq> None) \<and>
          (\<exists>m\<in>set [m0, m1]. \<exists>key\<in>set (compartment_keys m0).
             \<exists>series series0. map_of (results m) key = Some series \<and>
               map_of (results m0) key = Some series0 \<and> length series \<noteq> length series0)"
    unfolding keys by (simp add: m0_def m1_def)
  from aggregation_raises_on_missing_key_or_length [OF refl, of m0 "[m1]" "[50]"]
  have "(\<forall>m\<in>set [m0, m1]. \<forall>key\<in>set (compartment_keys m0).
             map_of (results m) key \<noteq> None) \<and>
          (\<exists>m\<in>set [m0, m1]. \<exists>key\<in>set (compartment_keys m0).
             \<exists>series series0. map_of (results m) key = Some series \<and>
               map_of (results m0) key = Some series0 \<and> length series \<noteq> length series0) \<longrightarrow>
            generate_compartment_arrays [m0, m1] = Inl ValueError \<and>
            generate_output_for_suppression_policy [50] [m0, m1] = Inl ValueError"
    by (elim conjE)
  from this[rule_format, OF h] show ?thesis unfolding m0_def m1_def by (elim conjE)
qed

section \<open>Properties of the start-time fitter\<close>

text \<open>
  Claim C7, as stated, fails when a region has several case rows for one day: five rows
  on three distinct days are fewer than the five distinct observation days required, and
  the constructor returns a fitter, since it counts rows.
\<close>

theorem fitter_init_counts_rows_counterexample:
  "int (card (row_date ` set (filter (\<lambda>r. row_fips r = ''06075'')
     [\<lparr>row_fips = ''06075'', row_date = 60, row_cases = 1, row_county = ''c'', row_state = ''s''\<rparr>,
      \<lparr>row_fips = ''06075'', row_date = 60, row_cases = 1, row_county = ''c'', row_state = ''s''\<rparr>,
      \<lparr>row_fips = ''06075'', row_date = 61, row_cases = 2, row_county = ''c'', row_state = ''s''\<rparr>,
      \<lparr>row_fips = ''06075'', row_date = 61, row_cases = 2, row_county = ''c'', row_state = ''s''\<rparr>,
      \<lparr>row_fips = ''06075'', row_date = 62, row_cases = 4, row_county = ''c'', row_state = ''s''\<rparr>]))) < 5 \<and>
   (\<exists>self. InitialConditionsFitter_init
     [\<lparr>row_fips = ''06075'', row_date = 60, row_cases = 1, row_county = ''c'', row_state = ''s''\<rparr>,
      \<lparr>row_fips = ''06075'', row_date = 60, row_cases = 1, row_county = ''c'', row_state = ''s''\<rparr>,
      \<lparr>row_fips = ''06075'', row_date = 61, row_cases = 2, row_county = ''c'', row_state = ''s''\<rparr>,
      \<lparr>row_fips = ''06075'', row_date = 61, row_cases = 2, row_county = ''c'', row_state = ''s''\<rparr>,
      \<lparr>row_fips = ''06075'', row_date = 62, row_cases = 4, row_county = ''c'', row_state = ''s''\<rparr>]
     ''06075'' 1 2 1000 5 = Inr self)"
  by (simp add: InitialConditionsFitter_init_def values0_def)

text \<open>
  Claim C7, amended. For a minimum of at least one day, the constructor raises the
  fit-infeasible error (a ValueError in the code) when the region has fewer case rows
  than \<open>min_days_required\<close>, and returns a fitter when it has at least that many rows;
  for a region with one row per day (distinct dates) this is the claim as stated, with
  the number of distinct observation days.
\<close>

theorem fitter_init_raises_iff_too_few_rows:
  assumes "1 \<le> min_days_required"
  shows
  "(int (length (filter (\<lambda>r. row_fips r = fips) case_data)) < min_days_required \<longrightarrow>
      InitialConditionsFitter_init case_data fips t0_case_count start_days_before_t0
        start_days_after_t0 min_days_required = Inl ValueError) \<and>
   (min_days_required \<le> int (length (filter (\<lambda>r. row_fips r = fips) case_data)) \<longrightarrow>
      (\<exists>self. InitialConditionsFitter_init case_data fips t0_case_count start_days_before_t0
                 start_days_after_t0 min_days_required = Inr self \<and>
              self_cases self = filter (\<lambda>r. row_fips r = fips) case_data \<and>
              self_y self = map row_cases (self_cases self) \<and>
              length (self_t self) = length (self_cases self))) \<and>
   (distinct (map row_date (filter (\<lambda>r. row_fips r = fips) case_data)) \<longrightarrow>
      (int (card (row_date ` set (filter (\<lambda>r. row_fips r = fips) case_data)))
          < min_days_required \<longrightarrow>
         InitialConditionsFitter_init case_data fips t0_case_count start_days_before_t0
           start_days_after_t0 min_days_required = Inl ValueError) \<and>
      (min_days_required
          \<le> int (card (row_date ` set (filter (\<lambda>r. row_fips r = fips) case_data))) \<longrightarrow>
         (\<exists>self. InitialConditionsFitter_init case_data fips t0_case_count start_days_before_t0
                    start_days_after_t0 min_days_required = Inr self)))"
proof -
  let ?cases = "filter (\<lambda>r. row_fips r = fips) case_data"
  let ?init = "InitialConditionsFitter_init case_data fips t0_case_count start_days_before_t0
        start_days_after_t0 min_days_required"
  have few: "int (length ?cases) < min_days_required \<longrightarrow> ?init = Inl ValueError"
    by (simp add: InitialConditionsFitter_init_def Let_def)
  have enough: "min_days_required \<le> int (length ?cases) \<longrightarrow>
      (\<exists>self. ?init = Inr self \<and> self_cases self = ?cases \<and>
              self_y self = map row_cases (self_cases self) \<and>
              length (self_t self) = length (self_cases self))"
  proof
    assume h: "min_days_required \<le> int (length ?cases)"
    with assms have "?cases \<noteq> []" by auto
    then obtain c cs where cs: "?cases = c # cs" by (cases ?cases) auto
    have "\<not> int (length ?cases) < min_days_required" using h by simp
    then show "\<exists>self. ?init = Inr self \<and> self_cases self = ?cases \<and>
              self_y self = map row_cases (self_cases self) \<and>
              length (self_t self) = length (self_cases self)"
      unfolding InitialConditionsFitter_init_def Let_def values0_def cs by simp
  qed
  have days: "distinct (map row_date ?cases) \<longrightarrow>
      (int (card (row_date ` set ?cases)) < min_days_required \<longrightarrow> ?init = Inl ValueError) \<and>
      (min_days_required \<le> int (card (row_date ` set ?cases)) \<longrightarrow> (\<exists>self. ?init = Inr self))"
  proof
    assume "distinct (map row_date ?cases)"
    then have "card (row_date ` set ?cases) = length ?cases"
      by (metis distinct_card length_map set_map)
    then show "(int (card (row_date ` set ?cases)) < min_days_required \<longrightarrow> ?init = Inl ValueError) \<and>
      (min_days_required \<le> int (card (row_date ` set ?cases)) \<longrightarrow> (\<exists>self. ?init = Inr self))"
      using few enough by auto
  qed
  show ?thesis using few enough days by (intro conjI)
qed

theorem fitter_init_raises_iff_too_few_rows_witness:
  "InitialConditionsFitter_init
     [\<lparr>row_fips = ''06075'', row_date = 60, row_cases = 1, row_county = ''c'', row_state = ''s''\<rparr>,
      \<lparr>row_fips = ''06075'', row_date = 61, row_cases = 2, row_county = ''c'', row_state = ''s''\<rparr>]
     ''06075'' 1 2 1000 5 = Inl ValueError"
proof -
  have m: "(1::int) \<le> 5" by simp
  have "int (length (filter (\<lambda>r. row_fips r = ''06075'')
     [\<lparr>row_fips = ''06075'', row_date = 60, row_cases = 1, row_county = ''c'', row_state = ''s''\<rparr>,
      \<lparr>row_fips = ''06075'', row_date = 61, row_cases = 2, row_county = ''c'', row_state = ''s''\<rparr>]))
      < 5"
    by simp
  from fitter_init_raises_iff_too_few_rows
    [OF m, of "''06075''"
      "[\<lparr>row_fips = ''06075'', row_date = 60, row_cases = 1, row_county = ''c'', row_state = ''s''\<rparr>,
      \<lparr>row_fips = ''06075'', row_date = 61, row_cases = 2, row_county = ''c'', row_state = ''s''\<rparr>]"
      1 2 1000,
      THEN conjunct1, rule_format, OF this]
  show ?thesis .
qed

lemma fit_model_params_eq:
  assumes "fit minimize self = Inr r"
  shows "minimize (exponential_loss self) = Inr (fit_model_params r)"
proof -
  from assms obtain p0 where p0: "minimize (exponential_loss self) = Inr p0"
    by (auto simp: fit_def fit_county_initial_conditions_def split: sum.splits)
  from assms p0 have "fit_model_params r = p0"
    by (auto simp: fit_def fit_county_initial_conditions_def Let_def split: sum.splits)
  with p0 show ?thesis by simp
qed

lemma exponential_loss_is_full: "exponential_loss self = windowed_loss (self_t self) (self_y self)"
  by (intro ext) (simp add: exponential_loss_def windowed_loss_def)

lemma t0_index_example:
  "t0_index (predictions \<lparr>mp_norm = 1, mp_t0 = 1, mp_scale = 1\<rparr> [0, 1, 2, 3, 4]) 1 = Inr 1"
  by (simp add: t0_index_def predictions_def exponential_model_def np_argmin_def argwhere_def
      fl_sub_def)

lemma fit_county_initial_conditions_ignores_window:
  "fit_county_initial_conditions minimize self t_filtered y_filtered
     = minimize (windowed_loss (self_t self) (self_y self))"
  by (simp add: fit_county_initial_conditions_def exponential_loss_is_full)

lemma exponential_model_nonzero:
  "scale \<noteq> 0 \<Longrightarrow> exponential_model n t0 scale t = Fin (n * exp ((t - t0) / scale))"
  by (simp add: exponential_model_def)

lemma fl_add_finite_iff: "is_finite (fl_add a b) \<longleftrightarrow> is_finite a \<and> is_finite b"
  by (cases a; cases b) simp_all

lemma foldl_fl_add_finite:
  "is_finite (foldl fl_add a xs) \<Longrightarrow> is_finite a \<and> (\<forall>x\<in>set xs. is_finite x)"
proof (induction xs arbitrary: a)
  case Nil
  then show ?case by simp
next
  case (Cons x xs)
  from Cons.IH[of "fl_add a x"] Cons.prems show ?case
    by (simp add: fl_add_finite_iff)
qed

lemma fl_div_int_finite_arg: "is_finite (fl_div_int s d) \<Longrightarrow> is_finite s"
  by (cases s) (simp_all split: if_splits)

lemma chi2_term_finite_arg: "is_finite (chi2_term p v) \<Longrightarrow> is_finite p"
  by (cases p) simp_all

lemma reduced_chi2_finite_predictions:
  assumes "reduced_chi2 y_pred y = Inr (Fin v)" and "(p, c) \<in> set (zip y_pred y)" and "0 < c"
  shows "is_finite p"
proof -
  from assms(1) have "is_finite (fl_div_int (np_sum (chi2_terms y_pred y))
                        (int (length (chi2_terms y_pred y)) - 1))"
    by (auto simp: reduced_chi2_def Let_def split: if_splits)
  then have "is_finite (np_sum (chi2_terms y_pred y))" by (rule fl_div_int_finite_arg)
  then have all: "\<forall>x\<in>set (chi2_terms y_pred y). is_finite x"
    unfolding np_sum_def using foldl_fl_add_finite by blast
  have "chi2_term p c \<in> set (chi2_terms y_pred y)"
    using assms(2,3) by (force simp: chi2_terms_def)
  with all have "is_finite (chi2_term p c)" by blast
  then show ?thesis by (rule chi2_term_finite_arg)
qed

lemma quadratic_minimum:
  fixes D N C n :: real
  assumes "0 < D" and "\<forall>m. D * n\<^sup>2 - 2 * N * n + C \<le> D * m\<^sup>2 - 2 * N * m + C"
  shows "n * D = N"
proof -
  have "D * n\<^sup>2 - 2 * N * n + C \<le> D * (N / D)\<^sup>2 - 2 * N * (N / D) + C" using assms(2) by blast
  moreover have "D * n\<^sup>2 - 2 * N * n + C - (D * (N / D)\<^sup>2 - 2 * N * (N / D) + C)
      = D * (n - N / D)\<^sup>2"
    using assms(1) by (simp add: power2_eq_square field_simps)
  ultimately have "D * (n - N / D)\<^sup>2 \<le> 0" by linarith
  moreover have "0 \<le> D * (n - N / D)\<^sup>2" using assms(1) by simp
  ultimately have "D * (n - N / D)\<^sup>2 = 0" by linarith
  then have "n = N / D" using assms(1) by simp
  then show ?thesis using assms(1) by simp
qed

lemma quadratic_improves:
  fixes D N C n :: real
  assumes "0 < D" and "n * D \<noteq> N"
  shows "D * (N / D)\<^sup>2 - 2 * N * (N / D) + C < D * n\<^sup>2 - 2 * N * n + C"
proof -
  have "D * n\<^sup>2 - 2 * N * n + C - (D * (N / D)\<^sup>2 - 2 * N * (N / D) + C)
      = D * (n - N / D)\<^sup>2"
    using assms(1) by (simp add: power2_eq_square field_simps)
  moreover have "n \<noteq> N / D" using assms by (auto simp: field_simps)
  then have "0 < D * (n - N / D)\<^sup>2" using assms(1) by simp
  ultimately show ?thesis by linarith
qed

lemma five_day_losses:
  assumes t: "self_t self = [0, 1, 2, 3, 4]" and y: "self_y self = [1, 1, 1, 2, 2]"
    and s: "s \<noteq> 0"
  shows "exponential_loss self m t0 s =
           Inr (Fin (((m * exp ((0 - t0) / s) - 1)\<^sup>2 + (m * exp ((1 - t0) / s) - 1)\<^sup>2 +
                      (m * exp ((2 - t0) / s) - 1)\<^sup>2 + (m * exp ((3 - t0) / s) - 2)\<^sup>2 / 2 +
                      (m * exp ((4 - t0) / s) - 2)\<^sup>2 / 2) / 4))"
    and "windowed_loss [1, 2, 3, 4] [1, 1, 2, 2] m t0 s =
           Inr (Fin (((m * exp ((1 - t0) / s) - 1)\<^sup>2 +
                      (m * exp ((2 - t0) / s) - 1)\<^sup>2 + (m * exp ((3 - t0) / s) - 2)\<^sup>2 / 2 +
                      (m * exp ((4 - t0) / s) - 2)\<^sup>2 / 2) / 3))"
  using s
  by (simp_all add: exponential_loss_def windowed_loss_def t y reduced_chi2_def chi2_terms_def
      np_sum_def exponential_model_nonzero)


lemma scale_zero_impossible:
  assumes t: "self_t self = [0, 1, 2, 3, 4]" and y: "self_y self = [1, 1, 1, 2, 2]"
    and c: "self_t0_case_count self = 1"
    and fin: "exponential_loss self (mp_norm p) (mp_t0 p) (mp_scale p) = Inr (Fin v)"
    and idx: "t0_index (predictions p (self_t self)) (self_t0_case_count self) = Inr 1"
  shows "mp_scale p \<noteq> 0"
proof
  assume z: "mp_scale p = 0"
  let ?pred = "\<lambda>k. exponential_model (mp_norm p) (mp_t0 p) 0 (real_of_int k)"
  have red: "reduced_chi2 (map ?pred [0, 1, 2, 3, 4]) [1, 1, 1, 2, 2] = Inr (Fin v)"
    using fin by (simp add: exponential_loss_def t y z)
  have "(?pred 4, 2) \<in> set (zip (map ?pred [0, 1, 2, 3, 4]) [1, 1, 1, 2, 2])" by simp
  from reduced_chi2_finite_predictions[OF red this] have "is_finite (?pred 4)" by simp
  then have "4 < mp_t0 p"
    by (cases "mp_norm p = 0"; cases "0 < mp_norm p")
       (auto simp: exponential_model_def split: if_splits)
  then have "predictions p [0, 1, 2, 3, 4] = [Fin 0, Fin 0, Fin 0, Fin 0, Fin 0]"
    by (simp add: predictions_def exponential_model_def z)
  then have "t0_index (predictions p (self_t self)) (self_t0_case_count self) = Inr 0"
    by (simp add: t c t0_index_def np_argmin_def argwhere_def fl_sub_def)
  with idx show False by simp
qed

text \<open>
  Claim C2. The refit is claimed to store parameters that minimise the loss over the
  windowed observations only. In the code the window is computed and passed to
  \<open>fit_county_initial_conditions\<close>, whose body does not read it, so the optimizer is
  given the loss over all observations again. For the region with the observations
  \<open>(0,1),(1,1),(2,1),(3,2),(4,2)\<close> and the window settings that
  \<open>generate_start_times_for_state\<close> passes: whatever the optimizer, if its result \<open>p\<close>
  for the full-series loss has a finite loss that no other normalisation improves (every
  minimiser of the full-series loss is such a \<open>p\<close>) and the threshold index of \<open>p\<close>
  is 1, then the window is the days 1 to 4, \<open>fit\<close> stores \<open>p\<close>, and \<open>p\<close> does not
  minimise the loss over the window: some other normalisation has a strictly smaller
  windowed loss.
\<close>

theorem refit_keeps_parameters_of_full_series_fit:
  assumes t: "self_t self = [0, 1, 2, 3, 4]" and y: "self_y self = [1, 1, 1, 2, 2]"
    and c: "self_t0_case_count self = 1"
    and before: "self_start_days_before_t0 self = 0"
    and after: "self_start_days_after_t0 self = 1000"
    and opt: "minimize (exponential_loss self) = Inr p"
    and fin: "exponential_loss self (mp_norm p) (mp_t0 p) (mp_scale p) = Inr (Fin v)"
    and best: "\<forall>m. \<not> loss_less (exponential_loss self m (mp_t0 p) (mp_scale p))
                              (exponential_loss self (mp_norm p) (mp_t0 p) (mp_scale p))"
    and idx: "t0_index (predictions p (self_t self)) (self_t0_case_count self) = Inr 1"
  shows "fit_window self 1 = ([1, 2, 3, 4], [1, 1, 2, 2]) \<and>
         (\<exists>r. fit minimize self = Inr r \<and> fit_model_params r = p \<and> fit_t0_idx r = 1) \<and>
         (\<exists>m. loss_less (windowed_loss [1, 2, 3, 4] [1, 1, 2, 2] m (mp_t0 p) (mp_scale p))
                          (windowed_loss [1, 2, 3, 4] [1, 1, 2, 2] (mp_norm p) (mp_t0 p)
                             (mp_scale p)))"
proof -
  define n where "n = mp_norm p"
  define t0 where "t0 = mp_t0 p"
  define s where "s = mp_scale p"
  define e0 where "e0 = exp ((0 - t0) / s)"
  define e1 where "e1 = exp ((1 - t0) / s)"
  define e2 where "e2 = exp ((2 - t0) / s)"
  define e3 where "e3 = exp ((3 - t0) / s)"
  define e4 where "e4 = exp ((4 - t0) / s)"
  have pos: "0 < e0" "0 < e1" "0 < e2" "0 < e3" "0 < e4"
    by (simp_all add: e0_def e1_def e2_def e3_def e4_def)
  have s: "s \<noteq> 0"
    unfolding s_def using t y c fin idx by (rule scale_zero_impossible)
  have window: "fit_window self 1 = ([1, 2, 3, 4], [1, 1, 2, 2])"
    by (simp add: fit_window_def py_slice_def t y before after Let_def)
  have full: "\<And>m. exponential_loss self m t0 s =
           Inr (Fin (((m * e0 - 1)\<^sup>2 + (m * e1 - 1)\<^sup>2 + (m * e2 - 1)\<^sup>2 +
                      (m * e3 - 2)\<^sup>2 / 2 + (m * e4 - 2)\<^sup>2 / 2) / 4))"
    unfolding e0_def e1_def e2_def e3_def e4_def using t y s by (rule five_day_losses(1))
  have win: "\<And>m. windowed_loss [1, 2, 3, 4] [1, 1, 2, 2] m t0 s =
           Inr (Fin (((m * e1 - 1)\<^sup>2 + (m * e2 - 1)\<^sup>2 +
                      (m * e3 - 2)\<^sup>2 / 2 + (m * e4 - 2)\<^sup>2 / 2) / 3))"
    unfolding e1_def e2_def e3_def e4_def using t y s by (rule five_day_losses(2))
  define D where "D = e0\<^sup>2 + e1\<^sup>2 + e2\<^sup>2 + e3\<^sup>2 / 2 + e4\<^sup>2 / 2"
  define N where "N = e0 + e1 + e2 + e3 + e4"
  define Dw where "Dw = e1\<^sup>2 + e2\<^sup>2 + e3\<^sup>2 / 2 + e4\<^sup>2 / 2"
  define Nw where "Nw = e1 + e2 + e3 + e4"
  have Dpos: "0 < D" unfolding D_def using pos by (simp add: add_pos_pos)
  have Dwpos: "0 < Dw" unfolding Dw_def using pos by (simp add: add_pos_pos)
  have Sfull: "\<And>m. (m * e0 - 1)\<^sup>2 + (m * e1 - 1)\<^sup>2 + (m * e2 - 1)\<^sup>2 +
                      (m * e3 - 2)\<^sup>2 / 2 + (m * e4 - 2)\<^sup>2 / 2 = D * m\<^sup>2 - 2 * N * m + 7"
    unfolding D_def N_def by (simp add: power2_eq_square field_simps)
  have Swin: "\<And>m. (m * e1 - 1)\<^sup>2 + (m * e2 - 1)\<^sup>2 +
                      (m * e3 - 2)\<^sup>2 / 2 + (m * e4 - 2)\<^sup>2 / 2 = Dw * m\<^sup>2 - 2 * Nw * m + 6"
    unfolding Dw_def Nw_def by (simp add: power2_eq_square field_simps)
  have "\<forall>m. D * n\<^sup>2 - 2 * N * n + 7 \<le> D * m\<^sup>2 - 2 * N * m + 7"
  proof
    fix m
    have "\<not> loss_less (exponential_loss self m t0 s) (exponential_loss self n t0 s)"
      using best unfolding n_def t0_def s_def by blast
    then have "\<not> (D * m\<^sup>2 - 2 * N * m + 7) / 4 < (D * n\<^sup>2 - 2 * N * n + 7) / 4"
      unfolding full Sfull by (simp add: loss_less_def)
    then show "D * n\<^sup>2 - 2 * N * n + 7 \<le> D * m\<^sup>2 - 2 * N * m + 7" by simp
  qed
  with Dpos have vertex: "n * D = N" by (rule quadratic_minimum)
  have preds: "predictions p [0, 1, 2, 3, 4] = [Fin (n * e0), Fin (n * e1), Fin (n * e2),
      Fin (n * e3), Fin (n * e4)]"
    using s unfolding n_def t0_def s_def e0_def e1_def e2_def e3_def e4_def
    by (simp add: predictions_def exponential_model_nonzero)
  have first: "n * e0 \<noteq> 1"
  proof
    assume "n * e0 = 1"
    then have "t0_index (predictions p (self_t self)) (self_t0_case_count self) = Inr 0"
      unfolding t c preds by (simp add: t0_index_def np_argmin_def argwhere_def fl_sub_def)
    with idx show False by simp
  qed
  have "n * Dw - Nw = (n * D - N) - e0 * (n * e0 - 1)"
    unfolding D_def N_def Dw_def Nw_def by (simp add: power2_eq_square algebra_simps)
  then have "n * Dw - Nw = - (e0 * (n * e0 - 1))" using vertex by simp
  moreover have "e0 * (n * e0 - 1) \<noteq> 0" using pos(1) first by simp
  ultimately have "n * Dw \<noteq> Nw" by auto
  with Dwpos have "Dw * (Nw / Dw)\<^sup>2 - 2 * Nw * (Nw / Dw) + 6 < Dw * n\<^sup>2 - 2 * Nw * n + 6"
    by (rule quadratic_improves)
  then have "loss_less (windowed_loss [1, 2, 3, 4] [1, 1, 2, 2] (Nw / Dw) t0 s)
                       (windowed_loss [1, 2, 3, 4] [1, 1, 2, 2] n t0 s)"
    unfolding win Swin by (simp add: loss_less_def)
  then have better: "\<exists>m. loss_less (windowed_loss [1, 2, 3, 4] [1, 1, 2, 2] m (mp_t0 p) (mp_scale p))
                          (windowed_loss [1, 2, 3, 4] [1, 1, 2, 2] (mp_norm p) (mp_t0 p)
                             (mp_scale p))"
    unfolding n_def t0_def s_def by (rule exI)
  have "\<exists>r. fit minimize self = Inr r \<and> fit_model_params r = p \<and> fit_t0_idx r = 1"
    using opt fin idx
    by (simp add: fit_def fit_county_initial_conditions_def Let_def split: prod.splits)
  with window better show ?thesis by (intro conjI)
qed


lemma quadratic_vertex_le:
  fixes D N C n m :: real
  assumes "n * D = N"  and "0 \<le> D"
  shows "D * n\<^sup>2 - 2 * N * n + C \<le> D * m\<^sup>2 - 2 * N * m + C"
proof -
  have "D * m\<^sup>2 - 2 * N * m + C - (D * n\<^sup>2 - 2 * N * n + C) = D * (m - n)\<^sup>2"
    unfolding assms(1)[symmetric] by (simp add: power2_eq_square algebra_simps)
  moreover have "0 \<le> D * (m - n)\<^sup>2" using assms(2) by simp
  ultimately show ?thesis by linarith
qed

lemma exp_growth_five_fourths:
  "exp ((real k - 0) / (1 / ln (5 / 4))) = (5 / 4) ^ k"
proof -
  have "exp (real k * ln (5 / 4)) = exp (ln (5 / 4)) ^ k" by (rule exp_of_nat_mult)
  then show ?thesis by simp
qed

theorem refit_keeps_parameters_of_full_series_fit_witness:
  "(\<exists>r. fit (\<lambda>loss. Inr \<lparr>mp_norm = 1075712 / 1296497, mp_t0 = 0, mp_scale = 1 / ln (5 / 4)\<rparr>)
          \<lparr>self_t0_case_count = 1, self_start_days_before_t0 = 0,
            self_start_days_after_t0 = 1000, self_min_days_required = 5,
            self_cases = [], self_fips = ''06075'', self_county = ''c'', self_state = ''s'',
            self_t = [0, 1, 2, 3, 4], self_data_start_date = 60,
            self_y = [1, 1, 1, 2, 2]\<rparr> = Inr r \<and>
        fit_model_params r
          = \<lparr>mp_norm = 1075712 / 1296497, mp_t0 = 0, mp_scale = 1 / ln (5 / 4)\<rparr> \<and>
        fit_t0_idx r = 1) \<and>
   (\<exists>m. loss_less (windowed_loss [1, 2, 3, 4] [1, 1, 2, 2] m 0 (1 / ln (5 / 4)))
                   (windowed_loss [1, 2, 3, 4] [1, 1, 2, 2] (1075712 / 1296497) 0
                      (1 / ln (5 / 4))))"
proof -
  define self where "self = \<lparr>self_t0_case_count = 1, self_start_days_before_t0 = 0,
            self_start_days_after_t0 = 1000, self_min_days_required = 5,
            self_cases = [], self_fips = ''06075'', self_county = ''c'', self_state = ''s'',
            self_t = [0, 1, 2, 3, 4], self_data_start_date = 60,
            self_y = [1, 1, 1, 2, 2]\<rparr>"
  define p where "p = \<lparr>mp_norm = 1075712 / 1296497, mp_t0 = 0, mp_scale = 1 / ln (5 / 4)\<rparr>"
  define minimize :: "loss \<Rightarrow> py_error + model_params" where "minimize = (\<lambda>loss. Inr p)"
  have t: "self_t self = [0, 1, 2, 3, 4]" and y: "self_y self = [1, 1, 1, 2, 2]"
    and c: "self_t0_case_count self = 1"
    and before: "self_start_days_before_t0 self = 0"
    and after: "self_start_days_after_t0 self = 1000"
    by (simp_all add: self_def)
  have n: "mp_norm p = 1075712 / 1296497" and t0: "mp_t0 p = 0"
    and sc: "mp_scale p = 1 / ln (5 / 4)" by (simp_all add: p_def)
  have s: "(1 / ln (5 / 4) :: real) \<noteq> 0" by simp
  have e: "exp ((0 - 0) / (1 / ln (5 / 4))) = (1 :: real)"
      "exp ((1 - 0) / (1 / ln (5 / 4))) = (5 / 4 :: real)"
      "exp ((2 - 0) / (1 / ln (5 / 4))) = (25 / 16 :: real)"
      "exp ((3 - 0) / (1 / ln (5 / 4))) = (125 / 64 :: real)"
      "exp ((4 - 0) / (1 / ln (5 / 4))) = (625 / 256 :: real)"
    using exp_growth_five_fourths[of 0] exp_growth_five_fourths[of 1]
      exp_growth_five_fourths[of 2] exp_growth_five_fourths[of 3]
      exp_growth_five_fourths[of 4]
    by (simp_all add: power_divide)
  have full: "\<And>m. exponential_loss self m 0 (1 / ln (5 / 4)) =
           Inr (Fin (((m * 1 - 1)\<^sup>2 + (m * (5 / 4) - 1)\<^sup>2 + (m * (25 / 16) - 1)\<^sup>2 +
                      (m * (125 / 64) - 2)\<^sup>2 / 2 + (m * (625 / 256) - 2)\<^sup>2 / 2) / 4))"
    using five_day_losses(1)[OF t y s, of _ 0] unfolding e .
  have S: "\<And>m :: real. (m * 1 - 1)\<^sup>2 + (m * (5 / 4) - 1)\<^sup>2 + (m * (25 / 16) - 1)\<^sup>2 +
                      (m * (125 / 64) - 2)\<^sup>2 / 2 + (m * (625 / 256) - 2)\<^sup>2 / 2
            = (1296497 / 131072) * m\<^sup>2 - 2 * (2101 / 256) * m + 7"
    by (simp add: power2_eq_square field_simps)
  have fin: "exponential_loss self (mp_norm p) (mp_t0 p) (mp_scale p)
      = Inr (Fin (((1296497 / 131072) * (1075712 / 1296497)\<^sup>2
                     - 2 * (2101 / 256) * (1075712 / 1296497) + 7) / 4))"
    unfolding n t0 sc full S ..
  have best: "\<forall>m. \<not> loss_less (exponential_loss self m (mp_t0 p) (mp_scale p))
                              (exponential_loss self (mp_norm p) (mp_t0 p) (mp_scale p))"
  proof
    fix m :: real
    have v: "(1075712 / 1296497 :: real) * (1296497 / 131072) = 2101 / 256" by simp
    have "(1296497 / 131072) * (1075712 / 1296497)\<^sup>2 - 2 * (2101 / 256) * (1075712 / 1296497) + 7
            \<le> (1296497 / 131072) * m\<^sup>2 - 2 * (2101 / 256) * m + (7 :: real)"
      using v by (rule quadratic_vertex_le) simp
    then show "\<not> loss_less (exponential_loss self m (mp_t0 p) (mp_scale p))
                              (exponential_loss self (mp_norm p) (mp_t0 p) (mp_scale p))"
      unfolding n t0 sc full S by (simp add: loss_less_def)
  qed
  have preds: "predictions p [0, 1, 2, 3, 4] =
      [Fin (1075712 / 1296497 * 1), Fin (1075712 / 1296497 * (5 / 4)),
       Fin (1075712 / 1296497 * (25 / 16)), Fin (1075712 / 1296497 * (125 / 64)),
       Fin (1075712 / 1296497 * (625 / 256))]"
    using e by (simp add: predictions_def exponential_model_nonzero n t0 sc)
  have idx: "t0_index (predictions p (self_t self)) (self_t0_case_count self) = Inr 1"
    unfolding t c preds by (simp add: t0_index_def np_argmin_def argwhere_def fl_sub_def)
  have opt: "minimize (exponential_loss self) = Inr p" by (simp add: minimize_def)
  from refit_keeps_parameters_of_full_series_fit
    [where minimize = minimize and self = self and p = p, OF t y c before after opt fin best idx]
  have "(\<exists>r. fit minimize self = Inr r \<and> fit_model_params r = p \<and> fit_t0_idx r = 1) \<and>
         (\<exists>m. loss_less (windowed_loss [1, 2, 3, 4] [1, 1, 2, 2] m (mp_t0 p) (mp_scale p))
                          (windowed_loss [1, 2, 3, 4] [1, 1, 2, 2] (mp_norm p) (mp_t0 p)
                             (mp_scale p)))"
    by (elim conjE) (intro conjI)
  then show ?thesis unfolding n t0 sc unfolding minimize_def self_def p_def .
qed

section \<open>Properties of the parameter ensemble generator\<close>

lemma sequence_err_Inr:
  "sequence_err xs = Inr vs \<Longrightarrow> length vs = length xs \<and> (\<forall>i<length xs. xs ! i = Inr (vs ! i))"
proof (induction xs arbitrary: vs)
  case Nil
  then show ?case by simp
next
  case (Cons x xs)
  from Cons.prems obtain v vs' where x: "x = Inr v" and r: "sequence_err xs = Inr vs'"
    and vs: "vs = v # vs'"
    by (auto split: sum.splits)
  from Cons.IH[OF r] x vs show ?case by (auto simp: nth_Cons split: nat.splits)
qed

lemma merge_left_row_unmatched:
  assumes "\<forall>h\<in>set hospital_bed_data. hosp_fips h \<noteq> meta_fips m"
  shows "merge_left_row hospital_bed_data m =
     [(''population_density'', Fin (population_density m)),
      (''housing_density'', Fin (housing_density m)),
      (''total_population'', Fin (total_population m)),
      (''num_licensed_beds'', NaN), (''num_staffed_beds'', NaN),
      (''num_icu_beds'', NaN), (''bed_utilization'', NaN),
      (''potential_increase_in_bed_capac'', NaN)]"
proof -
  have "filter (\<lambda>r. hosp_fips r = meta_fips m) hospital_bed_data = []"
    using assms by (simp add: filter_empty_conv)
  then have "groupby_sum hospital_bed_data (meta_fips m) = None"
    by (simp add: groupby_sum_def)
  then show ?thesis by (simp add: merge_left_row_def)
qed

lemma sample_one_unmatched:
  assumes "gen_county_metadata_merged self = Row (merge_left_row hospital_bed_data m)"
    and "\<forall>h\<in>set hospital_bed_data. hosp_fips h \<noteq> meta_fips m"
    and "sample_one self d = Inr ps"
  shows "map_of ps ''beds_general'' = Some (PNum NaN) \<and>
         map_of ps ''beds_ICU'' = Some (PNum NaN) \<and>
         map_of ps ''ventilators'' = Some (PNum NaN)"
proof -
  let ?merged = "merge_left_row hospital_bed_data m"
  have merged: "?merged = [(''population_density'', Fin (population_density m)),
      (''housing_density'', Fin (housing_density m)),
      (''total_population'', Fin (total_population m)),
      (''num_licensed_beds'', NaN), (''num_staffed_beds'', NaN),
      (''num_icu_beds'', NaN), (''bed_utilization'', NaN),
      (''potential_increase_in_bed_capac'', NaN)]"
    using assms(2) by (rule merge_left_row_unmatched)
  have g1: "dict_get ?merged ''num_licensed_beds'' (Fin 0) = NaN"
    and g2: "dict_get ?merged ''bed_utilization'' (Fin 0) = NaN"
    and g3: "dict_get ?merged ''potential_increase_in_bed_capac'' (Fin 0) = NaN"
    and g4: "dict_get ?merged ''num_icu_beds'' (Fin 0) = NaN"
    and n: "map_of ?merged ''total_population'' = Some (Fin (total_population m))"
    unfolding merged by (simp_all add: dict_get_def)
  from assms(3) have ok: "\<not> (d_fraction_asymptomatic d = 1 \<or> d_incubation_days d = 0 \<or> d_delta_inverse d = 0)"
    unfolding sample_one_def assms(1) by (auto simp: n split: if_splits)
  from assms(3) show ?thesis
    unfolding sample_one_def assms(1) using ok
    by (auto simp: n g1 g2 g3 g4 fl_sub_def)
qed

text \<open>
  Claim C3. For a region that the metadata table has and the hospital table lacks, the
  capacity constants are claimed to default to zero beds and a finite, non-negative
  ventilator count. The left merge gives that region's dictionary every hospital column
  with the value \<open>NaN\<close>, so \<open>dict.get(key, 0)\<close> finds the key and returns \<open>NaN\<close>:
  in every parameter set that is produced, general beds, ICU beds and ventilators are
  all \<open>NaN\<close>.
\<close>

theorem capacities_are_nan_without_hospital_rows:
  assumes "filter (\<lambda>m. meta_fips m = fips) county_metadata = [m]"
    and "\<forall>h\<in>set hospital_bed_data. hosp_fips h \<noteq> fips"
  shows "\<exists>self. ParameterEnsembleGenerator_init county_metadata hospital_bed_data fips N_samples ts
                  I_initial suppression_policy = Inr self \<and>
           (\<forall>parameter_sets. sample_seir_parameters self draws [] = Inr parameter_sets \<longrightarrow>
              length parameter_sets = nat N_samples \<and>
              (\<forall>ps\<in>set parameter_sets.
                 map_of ps ''beds_general'' = Some (PNum NaN) \<and>
                 map_of ps ''beds_ICU'' = Some (PNum NaN) \<and>
                 map_of ps ''ventilators'' = Some (PNum NaN)))"
proof -
  define self where "self = \<lparr>gen_fips = fips, gen_N_samples = N_samples, gen_I_initial = I_initial,
               gen_suppression_policy = suppression_policy, gen_t_list = ts,
               gen_county_metadata_merged = Row (merge_left_row hospital_bed_data m)\<rparr>"
  have "m \<in> set (filter (\<lambda>m. meta_fips m = fips) county_metadata)"
    unfolding assms(1) by simp
  then have m: "meta_fips m = fips" by simp
  have hosp: "\<forall>h\<in>set hospital_bed_data. hosp_fips h \<noteq> meta_fips m" using assms(2) m by simp
  have init: "ParameterEnsembleGenerator_init county_metadata hospital_bed_data fips N_samples ts
                  I_initial suppression_policy = Inr self"
    by (simp add: ParameterEnsembleGenerator_init_def assms(1) self_def)
  have merged: "gen_county_metadata_merged self = Row (merge_left_row hospital_bed_data m)"
    by (simp add: self_def)
  have "\<forall>parameter_sets. sample_seir_parameters self draws [] = Inr parameter_sets \<longrightarrow>
              length parameter_sets = nat N_samples \<and>
              (\<forall>ps\<in>set parameter_sets.
                 map_of ps ''beds_general'' = Some (PNum NaN) \<and>
                 map_of ps ''beds_ICU'' = Some (PNum NaN) \<and>
                 map_of ps ''ventilators'' = Some (PNum NaN))"
  proof (intro allI impI)
    fix parameter_sets
    assume res: "sample_seir_parameters self draws [] = Inr parameter_sets"
    let ?xs = "map (\<lambda>i. sample_one self (draws i)) [0..<nat (gen_N_samples self)]"
    from res have seq: "sequence_err ?xs = Inr parameter_sets"
      by (auto simp: sample_seir_parameters_def dict_update_def split: sum.splits)
    note nth = sequence_err_Inr[OF seq]
    have len: "length parameter_sets = nat N_samples" using nth by (simp add: self_def)
    have each: "\<forall>ps\<in>set parameter_sets.
                 map_of ps ''beds_general'' = Some (PNum NaN) \<and>
                 map_of ps ''beds_ICU'' = Some (PNum NaN) \<and>
                 map_of ps ''ventilators'' = Some (PNum NaN)"
    proof
      fix ps assume "ps \<in> set parameter_sets"
      then obtain i where i: "i < length parameter_sets" "parameter_sets ! i = ps"
        by (auto simp: in_set_conv_nth)
      then have "i < length ?xs" using nth by simp
      then have "?xs ! i = Inr ps" using nth i by simp
      moreover have "?xs ! i = sample_one self (draws i)" using \<open>i < length ?xs\<close> by simp
      ultimately have "sample_one self (draws i) = Inr ps" by simp
      with merged hosp show "map_of ps ''beds_general'' = Some (PNum NaN) \<and>
                 map_of ps ''beds_ICU'' = Some (PNum NaN) \<and>
                 map_of ps ''ventilators'' = Some (PNum NaN)"
        by (rule sample_one_unmatched)
    qed
    show "length parameter_sets = nat N_samples \<and>
              (\<forall>ps\<in>set parameter_sets.
                 map_of ps ''beds_general'' = Some (PNum NaN) \<and>
                 map_of ps ''beds_ICU'' = Some (PNum NaN) \<and>
                 map_of ps ''ventilators'' = Some (PNum NaN))"
      using len each by simp
  qed
  with init show ?thesis by (intro exI conjI)
qed

theorem capacities_are_nan_without_hospital_rows_witness:
  "\<exists>self parameter_sets.
     ParameterEnsembleGenerator_init
       [\<lparr>meta_fips = ''06001'', meta_state = ''California'', meta_county = ''Alameda'',
          population_density = 800, housing_density = 300, total_population = 1600000\<rparr>]
       [\<lparr>hosp_fips = ''06075'', num_licensed_beds = Fin 100, num_staffed_beds = Fin 90,
          num_icu_beds = Fin 10, bed_utilization = Fin (7/10),
          potential_increase_in_bed_capac = Fin 5\<rparr>]
       ''06001'' 1 [0, 1, 2] 1 None = Inr self \<and>
     sample_seir_parameters self
       (\<lambda>i. \<lparr>d_hospitalization_rate_general = 1/10, d_fraction_asymptomatic = 1/2, d_R0 = 4,
          d_icu_given_hospitalized = 29/100, d_fraction_icu_requiring_ventilator = 54/100,
          d_incubation_days = 5, d_delta_inverse = 5, d_symptoms_to_hospital_days = 6,
          d_symptoms_to_mortality_days = 18, d_length_of_stay_general = 7,
          d_length_of_stay_icu = 16, d_length_of_stay_icu_and_ventilator = 17,
          d_mortality_rate = 1/100, d_mortality_rate_no_general_beds = 1/4,
          d_mortality_rate_no_ICU_beds = 9/10, d_ventilator_multiplier = 11/10\<rparr>) []
       = Inr parameter_sets \<and>
     length parameter_sets = 1 \<and>
     (\<forall>ps\<in>set parameter_sets.
        map_of ps ''beds_general'' = Some (PNum NaN) \<and>
        map_of ps ''beds_ICU'' = Some (PNum NaN) \<and>
        map_of ps ''ventilators'' = Some (PNum NaN))"
proof -
  define meta where "meta = \<lparr>meta_fips = ''06001'', meta_state = ''California'',
          meta_county = ''Alameda'',
          population_density = 800, housing_density = 300, total_population = 1600000\<rparr>"
  define hosp where "hosp = \<lparr>hosp_fips = ''06075'', num_licensed_beds = Fin 100,
          num_staffed_beds = Fin 90,
          num_icu_beds = Fin 10, bed_utilization = Fin (7/10),
          potential_increase_in_bed_capac = Fin 5\<rparr>"
  define draws :: "nat \<Rightarrow> prior_draws" where
    "draws = (\<lambda>i. \<lparr>d_hospitalization_rate_general = 1/10, d_fraction_asymptomatic = 1/2, d_R0 = 4,
          d_icu_given_hospitalized = 29/100, d_fraction_icu_requiring_ventilator = 54/100,
          d_incubation_days = 5, d_delta_inverse = 5, d_symptoms_to_hospital_days = 6,
          d_symptoms_to_mortality_days = 18, d_length_of_stay_general = 7,
          d_length_of_stay_icu = 16, d_length_of_stay_icu_and_ventilator = 17,
          d_mortality_rate = 1/100, d_mortality_rate_no_general_beds = 1/4,
          d_mortality_rate_no_ICU_beds = 9/10, d_ventilator_multiplier = 11/10\<rparr>)"
  have h1: "filter (\<lambda>m. meta_fips m = ''06001'') [meta] = [meta]" by (simp add: meta_def)
  have h2: "\<forall>h\<in>set [hosp]. hosp_fips h \<noteq> ''06001''" by (simp add: hosp_def)
  from capacities_are_nan_without_hospital_rows [OF h1 h2, where draws = draws and N_samples = 1
      and ts = "[0, 1, 2]" and I_initial = 1 and suppression_policy = None]
  obtain self where init:
      "ParameterEnsembleGenerator_init [meta] [hosp] ''06001'' 1 [0, 1, 2] 1 None = Inr self"
    and all: "\<forall>parameter_sets. sample_seir_parameters self draws [] = Inr parameter_sets \<longrightarrow>
              length parameter_sets = nat 1 \<and>
              (\<forall>ps\<in>set parameter_sets.
                 map_of ps ''beds_general'' = Some (PNum NaN) \<and>
                 map_of ps ''beds_ICU'' = Some (PNum NaN) \<and>
                 map_of ps ''ventilators'' = Some (PNum NaN))"
    by (elim exE conjE)
  from init have self_eq: "self = \<lparr>gen_fips = ''06001'', gen_N_samples = 1, gen_I_initial = 1,
               gen_suppression_policy = None, gen_t_list = [0, 1, 2],
               gen_county_metadata_merged = Row (merge_left_row [hosp] meta)\<rparr>"
    unfolding ParameterEnsembleGenerator_init_def h1 by simp
  have "\<exists>parameter_sets. sample_seir_parameters self draws [] = Inr parameter_sets"
    unfolding self_eq
    by (simp add: sample_seir_parameters_def sample_one_def merge_left_row_def draws_def)
  then obtain parameter_sets where
    sets: "sample_seir_parameters self draws [] = Inr parameter_sets" by (elim exE)
  from all[rule_format, OF sets] init sets
  have "ParameterEnsembleGenerator_init [meta] [hosp] ''06001'' 1 [0, 1, 2] 1 None = Inr self \<and>
     sample_seir_parameters self draws [] = Inr parameter_sets \<and>
     length parameter_sets = 1 \<and>
     (\<forall>ps\<in>set parameter_sets.
        map_of ps ''beds_general'' = Some (PNum NaN) \<and>
        map_of ps ''beds_ICU'' = Some (PNum NaN) \<and>
        map_of ps ''ventilators'' = Some (PNum NaN))"
    by simp
  then show ?thesis unfolding meta_def hosp_def draws_def by (intro exI)
qed

section \<open>Properties of the imputation table\<close>

lemma set_update_subset: "set (AList.update k v al) \<subseteq> insert (k, v) (set al)"
  by (induction al) auto

lemma fit_counties_entries:
  assumes "fit_counties minimize case_data fs d = Inr d'"
    and "\<forall>(f, s)\<in>set d. fit_region minimize case_data f = Inr s"
  shows "(\<forall>(f, s)\<in>set d'. fit_region minimize case_data f = Inr s) \<and>
         fst ` set d' = set fs \<union> fst ` set d"
  using assms
proof (induction fs arbitrary: d)
  case Nil
  then show ?case by simp
next
  case (Cons f fs)
  from Cons.prems(1) obtain s where s: "fit_region minimize case_data f = Inr s"
    and rest: "fit_counties minimize case_data fs (AList.update f s d) = Inr d'"
    by (auto split: sum.splits)
  have inv: "\<forall>(f, s)\<in>set (AList.update f s d). fit_region minimize case_data f = Inr s"
    using set_update_subset[of f s d] Cons.prems(2) s by auto
  from Cons.IH[OF rest inv] show ?case by (auto simp: AList.dom_update)
qed

lemma merge_fits_iff:
  "(f, s, m) \<in> set (merge_fits county_fits metadata) \<longleftrightarrow>
     (f, s) \<in> set county_fits \<and> m \<in> set metadata \<and> meta_fips m = f"
  by (auto simp: merge_fits_def)

lemma fill_rows_sound:
  "fill_rows entries predicted = Inr rows \<Longrightarrow> row \<in> set rows \<Longrightarrow>
     \<exists>f s m. (f, s, m) \<in> set entries \<and>
       (case s of Some su \<Rightarrow> row = fitted_row f su m | None \<Rightarrow> (\<exists>p. row = imputed_row f m p))"
proof (induction entries predicted arbitrary: rows rule: fill_rows.induct)
  case (1 predicted)
  then show ?case by simp
next
  case (2 fips s m rest predicted)
  from "2.prems"(1) obtain rows' where r: "fill_rows rest predicted = Inr rows'"
    and rows: "rows = fitted_row fips s m # rows'"
    by (auto split: sum.splits)
  show ?case
  proof (cases "row = fitted_row fips s m")
    case True
    then show ?thesis by (intro exI[of _ fips] exI[of _ "Some s"] exI[of _ m]) simp
  next
    case False
    with "2.prems"(2) rows have "row \<in> set rows'" by simp
    from "2.IH"[OF r this] show ?thesis by auto
  qed
next
  case (3 fips m rest)
  then show ?case by simp
next
  case (4 fips m rest p predicted)
  from "4.prems"(1) obtain rows' where r: "fill_rows rest predicted = Inr rows'"
    and rows: "rows = imputed_row fips m p # rows'"
    by (auto split: sum.splits)
  show ?case
  proof (cases "row = imputed_row fips m p")
    case True
    then show ?thesis by (intro exI[of _ fips] exI[of _ "None"] exI[of _ m]) auto
  next
    case False
    with "4.prems"(2) rows have "row \<in> set rows'" by simp
    from "4.IH"[OF r this] show ?thesis by auto
  qed
qed

lemma fill_rows_complete:
  "fill_rows entries predicted = Inr rows \<Longrightarrow> (f, s, m) \<in> set entries \<Longrightarrow>
     \<exists>row\<in>set rows.
       (case s of Some su \<Rightarrow> row = fitted_row f su m | None \<Rightarrow> (\<exists>p. row = imputed_row f m p))"
proof (induction entries predicted arbitrary: rows rule: fill_rows.induct)
  case (1 predicted)
  then show ?case by simp
next
  case (2 fips s' m' rest predicted)
  from "2.prems"(1) obtain rows' where r: "fill_rows rest predicted = Inr rows'"
    and rows: "rows = fitted_row fips s' m' # rows'"
    by (auto split: sum.splits)
  show ?case
  proof (cases "(f, s, m) = (fips, Some s', m')")
    case True
    then show ?thesis using rows by auto
  next
    case False
    with "2.prems"(2) have "(f, s, m) \<in> set rest" by auto
    from "2.IH"[OF r this] show ?thesis using rows by auto
  qed
next
  case (3 fips m rest)
  then show ?case by simp
next
  case (4 fips m' rest p predicted)
  from "4.prems"(1) obtain rows' where r: "fill_rows rest predicted = Inr rows'"
    and rows: "rows = imputed_row fips m' p # rows'"
    by (auto split: sum.splits)
  show ?case
  proof (cases "(f, s, m) = (fips, None, m')")
    case True
    then show ?thesis using rows by auto
  next
    case False
    with "4.prems"(2) have "(f, s, m) \<in> set rest" by auto
    from "4.IH"[OF r this] show ?thesis using rows by auto
  qed
qed

lemma generate_start_times_table:
  assumes "generate_start_times_for_state minimize train case_data metadata state = Inr table"
  shows "\<exists>fips_to_fit_map predicted.
           fit_counties minimize case_data
             (map meta_fips (filter (\<lambda>m. str_lower (meta_state m) = str_lower state) metadata)) []
             = Inr fips_to_fit_map \<and>
           fill_rows (merge_fits fips_to_fit_map metadata) predicted = Inr table"
  using assms
  by (auto simp: generate_start_times_for_state_def Let_def split: if_splits sum.splits)

text \<open>
  Claim C9. In the combined table of a state, every row of a region with a real fit is
  not flagged as imputed and has the doubling time \<open>ln 2\<close> times the fitted \<open>scale\<close>
  parameter of that region; every row whose start time was imputed belongs to a region
  without a fit and has no doubling time (\<open>NaN\<close>); every region of the state has a row.
\<close>

theorem doubling_time_only_for_real_fits:
  assumes "generate_start_times_for_state minimize train case_data metadata state = Inr table"
  shows "(\<forall>row\<in>set table.
            (\<not> imputed_start_time row \<longrightarrow>
               (\<exists>s. fit_region minimize case_data (r_fips row) = Inr (Some s) \<and>
                    r_model_params row = Some (s_model_params s) \<and>
                    doubling_rate_days row = Fin (ln 2 * mp_scale (s_model_params s)))) \<and>
            (imputed_start_time row \<longrightarrow>
               fit_region minimize case_data (r_fips row) = Inr None \<and>
               doubling_rate_days row = NaN)) \<and>
         (\<forall>m\<in>set metadata. str_lower (meta_state m) = str_lower state \<longrightarrow>
            (\<exists>row\<in>set table. r_fips row = meta_fips m \<and> r_meta row = m))"
proof -
  let ?counties = "map meta_fips (filter (\<lambda>m. str_lower (meta_state m) = str_lower state) metadata)"
  from generate_start_times_table[OF assms]
  obtain d predicted where d: "fit_counties minimize case_data ?counties [] = Inr d"
    and fill: "fill_rows (merge_fits d metadata) predicted = Inr table"
    by (elim exE conjE)
  have "\<forall>(f, s)\<in>set []. fit_region minimize case_data f = Inr s" by simp
  from fit_counties_entries[OF d this]
  have fits: "\<forall>(f, s)\<in>set d. fit_region minimize case_data f = Inr s"
    and keys: "fst ` set d = set ?counties" by simp_all
  have rows: "\<forall>row\<in>set table.
            (\<not> imputed_start_time row \<longrightarrow>
               (\<exists>s. fit_region minimize case_data (r_fips row) = Inr (Some s) \<and>
                    r_model_params row = Some (s_model_params s) \<and>
                    doubling_rate_days row = Fin (ln 2 * mp_scale (s_model_params s)))) \<and>
            (imputed_start_time row \<longrightarrow>
               fit_region minimize case_data (r_fips row) = Inr None \<and>
               doubling_rate_days row = NaN)"
  proof
    fix row assume "row \<in> set table"
    from fill_rows_sound[OF fill this]
    obtain f s m where e: "(f, s, m) \<in> set (merge_fits d metadata)"
      and r: "case s of Some su \<Rightarrow> row = fitted_row f su m
                      | None \<Rightarrow> (\<exists>p. row = imputed_row f m p)"
      by (elim exE conjE)
    from e have "(f, s) \<in> set d" by (simp add: merge_fits_iff)
    with fits have fr: "fit_region minimize case_data f = Inr s" by auto
    show "(\<not> imputed_start_time row \<longrightarrow>
               (\<exists>s. fit_region minimize case_data (r_fips row) = Inr (Some s) \<and>
                    r_model_params row = Some (s_model_params s) \<and>
                    doubling_rate_days row = Fin (ln 2 * mp_scale (s_model_params s)))) \<and>
            (imputed_start_time row \<longrightarrow>
               fit_region minimize case_data (r_fips row) = Inr None \<and>
               doubling_rate_days row = NaN)"
    proof (cases s)
      case None
      with r obtain p where "row = imputed_row f m p" by auto
      then show ?thesis using fr None by (simp add: imputed_row_def)
    next
      case (Some su)
      with r have "row = fitted_row f su m" by simp
      then show ?thesis using fr Some by (simp add: fitted_row_def)
    qed
  qed
  have cover: "\<forall>m\<in>set metadata. str_lower (meta_state m) = str_lower state \<longrightarrow>
            (\<exists>row\<in>set table. r_fips row = meta_fips m \<and> r_meta row = m)"
  proof (intro ballI impI)
    fix m assume m: "m \<in> set metadata" and st: "str_lower (meta_state m) = str_lower state"
    then have "meta_fips m \<in> set ?counties" by auto
    with keys obtain s where "(meta_fips m, s) \<in> set d" by force
    with m have "(meta_fips m, s, m) \<in> set (merge_fits d metadata)"
      by (simp add: merge_fits_iff)
    from fill_rows_complete[OF fill this]
    obtain row where mem: "row \<in> set table"
      and c: "case s of Some su \<Rightarrow> row = fitted_row (meta_fips m) su m
                   | None \<Rightarrow> (\<exists>p. row = imputed_row (meta_fips m) m p)"
      by (elim bexE)
    from c have "r_fips row = meta_fips m \<and> r_meta row = m"
      by (cases s) (auto simp: fitted_row_def imputed_row_def)
    with mem show "\<exists>row\<in>set table. r_fips row = meta_fips m \<and> r_meta row = m"
      by (intro bexI)
  qed
  show ?thesis using rows cover by (intro conjI)
qed

theorem doubling_time_only_for_real_fits_witness:
  "\<exists>table.
     generate_start_times_for_state
       (\<lambda>loss. Inr \<lparr>mp_norm = 1, mp_t0 = 1, mp_scale = 1\<rparr>)
       (\<lambda>rows. Inr (\<lambda>xs. Inr (map (\<lambda>x. 70) xs)))
       [\<lparr>row_fips = ''06075'', row_date = 60, row_cases = 1, row_county = ''San Francisco'',
          row_state = ''California''\<rparr>,
        \<lparr>row_fips = ''06075'', row_date = 61, row_cases = 2, row_county = ''San Francisco'',
          row_state = ''California''\<rparr>,
        \<lparr>row_fips = ''06075'', row_date = 62, row_cases = 4, row_county = ''San Francisco'',
          row_state = ''California''\<rparr>,
        \<lparr>row_fips = ''06075'', row_date = 63, row_cases = 8, row_county = ''San Francisco'',
          row_state = ''California''\<rparr>,
        \<lparr>row_fips = ''06075'', row_date = 64, row_cases = 16, row_county = ''San Francisco'',
          row_state = ''California''\<rparr>]
       [\<lparr>meta_fips = ''06075'', meta_state = ''California'', meta_county = ''San Francisco'',
          population_density = 7000, housing_density = 3000, total_population = 880000\<rparr>,
        \<lparr>meta_fips = ''06001'', meta_state = ''California'', meta_county = ''Alameda'',
          population_density = 800, housing_density = 300, total_population = 1600000\<rparr>]
       ''california'' = Inr table \<and>
     (\<forall>row\<in>set table. imputed_start_time row \<longrightarrow> doubling_rate_days row = NaN) \<and>
     (\<exists>row\<in>set table. r_fips row = ''06075'')"
proof -
  define cd0 :: "case_row list" where "cd0 =
       [\<lparr>row_fips = ''06075'', row_date = 60, row_cases = 1, row_county = ''San Francisco'',
          row_state = ''California''\<rparr>,
        \<lparr>row_fips = ''06075'', row_date = 61, row_cases = 2, row_county = ''San Francisco'',
          row_state = ''California''\<rparr>,
        \<lparr>row_fips = ''06075'', row_date = 62, row_cases = 4, row_county = ''San Francisco'',
          row_state = ''California''\<rparr>,
        \<lparr>row_fips = ''06075'', row_date = 63, row_cases = 8, row_county = ''San Francisco'',
          row_state = ''California''\<rparr>,
        \<lparr>row_fips = ''06075'', row_date = 64, row_cases = 16, row_county = ''San Francisco'',
          row_state = ''California''\<rparr>]"
  define md0 :: "county_meta list" where "md0 =
       [\<lparr>meta_fips = ''06075'', meta_state = ''California'', meta_county = ''San Francisco'',
          population_density = 7000, housing_density = 3000, total_population = 880000\<rparr>,
        \<lparr>meta_fips = ''06001'', meta_state = ''California'', meta_county = ''Alameda'',
          population_density = 800, housing_density = 300, total_population = 1600000\<rparr>]"
  define mn0 :: "loss \<Rightarrow> py_error + model_params" where "mn0 = (\<lambda>loss. Inr \<lparr>mp_norm = 1, mp_t0 = 1, mp_scale = 1\<rparr>)"
  define tr0 :: "(features \<times> real) list \<Rightarrow> py_error + predictor" where "tr0 = (\<lambda>rows. Inr (\<lambda>xs. Inr (map (\<lambda>x. 70) xs)))"
  have fr1: "\<exists>s. fit_region mn0 cd0 ''06075'' = Inr (Some s)"
    by (simp add: fit_region_def InitialConditionsFitter_init_def cd0_def values0_def date_min_def
      fit_def fit_county_initial_conditions_def mn0_def t0_index_example Let_def
      exponential_loss_def reduced_chi2_def)
  then obtain s where s: "fit_region mn0 cd0 ''06075'' = Inr (Some s)" by (elim exE)
  have fr2: "fit_region mn0 cd0 ''06001'' = Inr None"
    by (simp add: fit_region_def InitialConditionsFitter_init_def cd0_def)
  have st: "str_lower ''California'' = str_lower ''california''"
    by (simp add: str_lower_def lower_char_def)
  have c: "map meta_fips (filter (\<lambda>m. str_lower (meta_state m) = str_lower ''california'') md0)
      = [''06075'', ''06001'']"
    by (simp add: md0_def st)
  have d: "fit_counties mn0 cd0 [''06075'', ''06001''] []
             = Inr [(''06075'', Some s), (''06001'', None)]"
    by (simp add: s fr2)
  have "\<exists>table. generate_start_times_for_state mn0 tr0 cd0 md0 ''california'' = Inr table"
    unfolding generate_start_times_for_state_def c Let_def d
    by (simp add: merge_fits_def md0_def tr0_def)
  then obtain table where
    t: "generate_start_times_for_state mn0 tr0 cd0 md0 ''california'' = Inr table" by (elim exE)
  note facts = doubling_time_only_for_real_fits [OF t]
  have m: "md0 ! 0 \<in> set md0" by (simp add: md0_def)
  have m0: "str_lower (meta_state (md0 ! 0)) = str_lower ''california''"
    by (simp add: md0_def st)
  from facts[THEN conjunct2, rule_format, OF m m0]
  obtain row where "row \<in> set table" and "r_fips row = meta_fips (md0 ! 0)"
    by (elim bexE conjE)
  then have "row \<in> set table" and "r_fips row = ''06075''" by (simp_all add: md0_def)
  then have cover: "\<exists>row\<in>set table. r_fips row = ''06075''" by (intro bexI)
  from facts[THEN conjunct1]
  have "\<forall>row\<in>set table. imputed_start_time row \<longrightarrow> doubling_rate_days row = NaN"
    by blast
  with t cover have "generate_start_times_for_state mn0 tr0 cd0 md0 ''california'' = Inr table \<and>
     (\<forall>row\<in>set table. imputed_start_time row \<longrightarrow> doubling_rate_days row = NaN) \<and>
     (\<exists>row\<in>set table. r_fips row = ''06075'')"
    by (intro conjI)
  then show ?thesis unfolding cd0_def md0_def mn0_def tr0_def by (intro exI)
qed

end
